theory Spec2Isabelle
  imports Main "HOL-Library.AList"
begin

section \<open>Values of the host language\<close>

text \<open>
  The functions of the data library (\<^verbatim>\<open>lib/data\<close>, imported by \<^verbatim>\<open>App.tsx\<close>) work on
  dynamically typed values: the cells of a row (\<^verbatim>\<open>Row = Record<string, any>\<close>) and the
  properties of a geographic feature. Such a value is modelled as a scalar: \<^verbatim>\<open>undefined\<close>,
  \<^verbatim>\<open>null\<close>, a boolean, a number or a string. On scalars no operation that the functions
  use can throw. Values that are not scalars, whose conversion to a string or to a number
  can throw, are added in a section of their own below, for the normalizer and the
  aggregator. Properties inherited from \<^verbatim>\<open>Object.prototype\<close> are outside the model.

  Numbers are IEEE doubles in the source. The model keeps the number type \<open>'n\<close> abstract
  and takes the operations of the language runtime on numbers as a parameter, so that
  nothing proved below depends on how addition rounds or how a number is printed or parsed.

  Strings are \<open>char list\<close>. Case mapping and the white space class are those of ASCII;
  text outside ASCII is outside the model.
\<close>

datatype 'n jsval = JUndefined | JNull | JBool bool | JNum 'n | JStr string

record 'n runtime =
  num_add :: "'n \<Rightarrow> 'n \<Rightarrow> 'n"  \<comment> \<open>\<^verbatim>\<open>a + b\<close> on numbers\<close>
  num_zero :: "'n"  \<comment> \<open>the literal \<^verbatim>\<open>0\<close>\<close>
  num_one :: "'n"  \<comment> \<open>\<^verbatim>\<open>Number(true)\<close>\<close>
  num_nan :: "'n"  \<comment> \<open>\<^verbatim>\<open>Number(undefined)\<close>\<close>
  num_isFinite :: "'n \<Rightarrow> bool"  \<comment> \<open>\<^verbatim>\<open>Number.isFinite\<close>\<close>
  num_truthy :: "'n \<Rightarrow> bool"  \<comment> \<open>\<^verbatim>\<open>Boolean(n)\<close>: false for zero and NaN\<close>
  num_of_string :: "string \<Rightarrow> 'n"  \<comment> \<open>\<^verbatim>\<open>Number(s)\<close> on a string\<close>
  num_to_string :: "'n \<Rightarrow> string"  \<comment> \<open>\<^verbatim>\<open>String(n)\<close> on a number\<close>

fun nullish :: "'n jsval \<Rightarrow> bool" where
  "nullish JUndefined = True"
| "nullish JNull = True"
| "nullish _ = False"

text \<open>\<^verbatim>\<open>String(v)\<close>.\<close>

fun toString :: "'n runtime \<Rightarrow> 'n jsval \<Rightarrow> string" where
  "toString rt JUndefined = ''undefined''"
| "toString rt JNull = ''null''"
| "toString rt (JBool b) = (if b then ''true'' else ''false'')"
| "toString rt (JNum n) = num_to_string rt n"
| "toString rt (JStr s) = s"

text \<open>\<^verbatim>\<open>Number(v)\<close>.\<close>

fun toNumber :: "'n runtime \<Rightarrow> 'n jsval \<Rightarrow> 'n" where
  "toNumber rt JUndefined = num_nan rt"
| "toNumber rt JNull = num_zero rt"
| "toNumber rt (JBool b) = (if b then num_one rt else num_zero rt)"
| "toNumber rt (JNum n) = n"
| "toNumber rt (JStr s) = num_of_string rt s"

text \<open>Truthiness, as tested by \<^verbatim>\<open>if (v)\<close> and \<^verbatim>\<open>!v\<close>.\<close>

fun toBoolean :: "'n runtime \<Rightarrow> 'n jsval \<Rightarrow> bool" where
  "toBoolean rt JUndefined = False"
| "toBoolean rt JNull = False"
| "toBoolean rt (JBool b) = b"
| "toBoolean rt (JNum n) = num_truthy rt n"
| "toBoolean rt (JStr s) = (s \<noteq> [])"

subsection \<open>Strings\<close>

text \<open>\<^verbatim>\<open>toUpperCase\<close> and \<^verbatim>\<open>toLowerCase\<close>: the letters change case, every other character
  stays.\<close>

definition toUpperChar :: "char \<Rightarrow> char" where
  "toUpperChar c =
     (case map_of (zip ''abcdefghijklmnopqrstuvwxyz'' ''ABCDEFGHIJKLMNOPQRSTUVWXYZ'') c of
        None \<Rightarrow> c
      | Some u \<Rightarrow> u)"

definition toUpperCase :: "string \<Rightarrow> string" where
  "toUpperCase s = map toUpperChar s"

definition toLowerChar :: "char \<Rightarrow> char" where
  "toLowerChar c =
     (case map_of (zip ''ABCDEFGHIJKLMNOPQRSTUVWXYZ'' ''abcdefghijklmnopqrstuvwxyz'') c of
        None \<Rightarrow> c
      | Some l \<Rightarrow> l)"

definition toLowerCase :: "string \<Rightarrow> string" where
  "toLowerCase s = map toLowerChar s"

text \<open>The white space that \<^verbatim>\<open>trim\<close> removes: tab, line feed, vertical tab, form feed,
  carriage return and space.\<close>

definition isWhiteSpace :: "char \<Rightarrow> bool" where
  "isWhiteSpace c = (c \<in> set [CHR 0x09, CHR 0x0A, CHR 0x0B, CHR 0x0C, CHR 0x0D, CHR '' ''])"

definition trim :: "string \<Rightarrow> string" where
  "trim s = rev (dropWhile isWhiteSpace (rev (dropWhile isWhiteSpace s)))"

text \<open>\<^verbatim>\<open>s.includes(sub)\<close>: \<open>sub\<close> occurs in \<open>s\<close> as a contiguous run.\<close>

fun str_includes :: "string \<Rightarrow> string \<Rightarrow> bool" where
  "str_includes [] sub = (sub = [])"
| "str_includes (c # cs) sub = (take (length sub) (c # cs) = sub \<or> str_includes cs sub)"

text \<open>The characters of the class \<^verbatim>\<open>[A-Z0-9 ]\<close>, and the test \<^verbatim>\<open>/[A-Z0-9 ]/.test(ch)\<close> on a
  single character.\<close>

definition key_alphabet :: "string" where
  "key_alphabet = ''ABCDEFGHIJKLMNOPQRSTUVWXYZ0123456789 ''"

definition test_AZ09sp :: "char \<Rightarrow> bool" where
  "test_AZ09sp ch = (ch \<in> set key_alphabet)"

text \<open>Decimal digits of a natural number, as a template literal prints an index.\<close>

definition digit :: "nat \<Rightarrow> char" where
  "digit d = ''0123456789'' ! d"

fun decimal :: "nat \<Rightarrow> string" where
  "decimal n = (if n < 10 then [digit n] else decimal (n div 10) @ [digit (n mod 10)])"

declare decimal.simps [simp del]

section \<open>Normalizer\<close>

text \<open>
  \<^verbatim>\<open>
  export function normalizeName(s: any): string {
    if (s == null) return ''
    const t = String(s).toUpperCase()
    return Array.from(t).filter(ch => /[A-Z0-9 ]/.test(ch)).join('').trim()
  }
  \<close>
\<close>

definition normalizeName :: "'n runtime \<Rightarrow> 'n jsval \<Rightarrow> string" where
  "normalizeName rt s =
     (if nullish s then []
      else let t = toUpperCase (toString rt s)
           in trim (filter test_AZ09sp t))"

text \<open>What the specification calls trimming of leading and trailing spaces.\<close>

definition strip_spaces :: "string \<Rightarrow> string" where
  "strip_spaces s =
     rev (dropWhile (\<lambda>c. c = CHR '' '') (rev (dropWhile (\<lambda>c. c = CHR '' '') s)))"

section \<open>Column detector\<close>

text \<open>A row is an object whose own keys are ordered: an association list, in the order in
  which \<^verbatim>\<open>Object.keys\<close> lists the keys. \<open>get r c\<close> is the read \<^verbatim>\<open>r[c]\<close>, \<^verbatim>\<open>undefined\<close> for
  a missing column.\<close>

type_synonym 'n Row = "(string \<times> 'n jsval) list"

definition get :: "'n Row \<Rightarrow> string \<Rightarrow> 'n jsval" where
  "get r c = (case map_of r c of None \<Rightarrow> JUndefined | Some v \<Rightarrow> v)"

definition Object_keys :: "'n Row \<Rightarrow> string list" where
  "Object_keys r = map fst r"

definition candidates :: "string list" where
  "candidates =
     [''LGA_NAME'', ''LGA'', ''LGA Name'', ''LGA_NAME_2021'', ''Local Government Area'', ''LG A'',
      ''lga'', ''lga_name'', ''name'', ''LGA_NAME_2016'', ''AREA_NAME'']"

text \<open>
  \<^verbatim>\<open>
  export function detectLgaColumn(rows: Row[]): string | null {
    if (rows.length === 0) return null
    const candidates = [ ... ]
    const cols = Object.keys(rows[0] ?? {})
    for (const c of candidates) if (cols.includes(c)) return c
    for (const c of cols) if (c.toLowerCase().includes('lga')) return c
    return null
  }
  \<close>
\<close>

definition detectLgaColumn :: "'n Row list \<Rightarrow> string option" where
  "detectLgaColumn table =
     (case table of
        [] \<Rightarrow> None
      | r0 # _ \<Rightarrow>
          (let cols = Object_keys r0
           in case find (\<lambda>c. c \<in> set cols) candidates of
                Some c \<Rightarrow> Some c
              | None \<Rightarrow> find (\<lambda>c. str_includes (toLowerCase c) ''lga'') cols))"

text \<open>\<^verbatim>\<open>typeof v === 'number'\<close>.\<close>

fun typeof_number :: "'n jsval \<Rightarrow> bool" where
  "typeof_number (JNum _) = True"
| "typeof_number _ = False"

text \<open>The test \<^verbatim>\<open>/(exp|loss|amount|value|net|total)/i.test(c)\<close>: some alternative occurs in
  \<open>c\<close>, letters compared after the canonical upper-casing of a case-insensitive match.\<close>

definition vocabulary :: "string list" where
  "vocabulary = [''exp'', ''loss'', ''amount'', ''value'', ''net'', ''total'']"

definition test_vocabulary :: "string \<Rightarrow> bool" where
  "test_vocabulary c = list_ex (\<lambda>w. str_includes (toUpperCase c) (toUpperCase w)) vocabulary"

text \<open>
  \<^verbatim>\<open>
  export function detectValueColumns(rows: Row[]): string[] {
    if (rows.length === 0) return []
    const cols = Object.keys(rows[0])
    const isNumCol = (c: string) => rows.some(r => typeof r[c] === 'number')
    const numeric = cols.filter(isNumCol)
    const priority = numeric.filter(c => /(exp|loss|amount|value|net|total)/i.test(c))
    return priority.length ? priority : numeric.slice(0, 1)
  }
  \<close>
\<close>

definition detectValueColumns :: "'n Row list \<Rightarrow> string list" where
  "detectValueColumns table =
     (case table of
        [] \<Rightarrow> []
      | r0 # _ \<Rightarrow>
          (let cols = Object_keys r0;
               isNumCol = (\<lambda>c. list_ex (\<lambda>r. typeof_number (get r c)) table);
               numeric = filter isNumCol cols;
               priority = filter test_vocabulary numeric
           in if priority \<noteq> [] then priority else take 1 numeric))"

section \<open>Aggregator\<close>

text \<open>
  The \<^verbatim>\<open>Map\<close> of the aggregators keeps its keys in insertion order, and setting a key that
  is present keeps the key's place: an association list with \<open>AList.update\<close>. A value of
  the map is a bucket \<^verbatim>\<open>{ name, metrics }\<close>; the metrics object is a finite map from
  metric names to running sums. An entry of the result adds the key to the bucket.
\<close>

record 'n bucket =
  name :: string
  metrics :: "string \<rightharpoonup> 'n"

record 'n region = "'n bucket" +
  key :: string

type_synonym 'n region_map = "(string \<times> 'n bucket) list"

text \<open>The template literal \<^verbatim>\<open>`metric_${idx+1}`\<close>.\<close>

definition metricKey :: "nat \<Rightarrow> string" where
  "metricKey idx = ''metric_'' @ decimal (idx + 1)"

text \<open>
  The loop over the value columns of one row. In \<^verbatim>\<open>aggregateByLgaWithMapping\<close>:
  \<^verbatim>\<open>
      f.valueCols.forEach((c, idx) => {
        const k = `metric_${idx+1}`
        const v = Number(r[c])
        if (Number.isFinite(v)) cur.metrics[k] = (cur.metrics[k] ?? 0) + v
      })
  \<close>
  and in \<^verbatim>\<open>aggregateByLga\<close> the same body in a counting loop:
  \<^verbatim>\<open>
      for (let i = 0; i < valCols.length; i++) {
        const c = valCols[i]
        const k = `metric_${i+1}`
        const v = Number(r[c])
        if (!Number.isFinite(v)) continue
        cur.metrics[k] = (cur.metrics[k] ?? 0) + v
      }
  \<close>
  The second argument of the recursion is the columns still to visit, the third the
  index of the first of them.
\<close>

fun addRowMetrics ::
  "'n runtime \<Rightarrow> 'n Row \<Rightarrow> string list \<Rightarrow> nat \<Rightarrow> (string \<rightharpoonup> 'n) \<Rightarrow> (string \<rightharpoonup> 'n)" where
  "addRowMetrics rt r [] idx ms = ms"
| "addRowMetrics rt r (c # cs) idx ms =
     (let k = metricKey idx;
          v = toNumber rt (get r c)
      in addRowMetrics rt r cs (idx + 1)
           (if num_isFinite rt v
            then ms(k \<mapsto> num_add rt (case ms k of None \<Rightarrow> num_zero rt | Some x \<Rightarrow> x) v)
            else ms))"

text \<open>The rest of the row loop, the trimmed name of the row being known:
  \<^verbatim>\<open>
      if (!name) continue
      const key = normalizeName(name)
      const cur = map.get(key) ?? { name, metrics: {} }
      ... the loop over the value columns ...
      map.set(key, cur)
  \<close>
\<close>

definition addRow ::
  "'n runtime \<Rightarrow> string list \<Rightarrow> string \<Rightarrow> 'n Row \<Rightarrow> 'n region_map \<Rightarrow> 'n region_map" where
  "addRow rt valCols nm r m =
     (if nm = [] then m
      else let k = normalizeName rt (JStr nm);
               cur = (case map_of m k of None \<Rightarrow> \<lparr> name = nm, metrics = Map.empty \<rparr> | Some b \<Rightarrow> b);
               cur' = cur \<lparr> metrics := addRowMetrics rt r valCols 0 (metrics cur) \<rparr>
           in AList.update k cur' m)"

text \<open>\<^verbatim>\<open>Array.from(map.entries()).map(([key, v]) => ({ key, name: v.name, metrics: v.metrics }))\<close>\<close>

definition entries :: "'n region_map \<Rightarrow> 'n region list" where
  "entries m = map (\<lambda>(k, v). \<lparr> name = name v, metrics = metrics v, key = k \<rparr>) m"

text \<open>
  \<^verbatim>\<open>
  export function aggregateByLga(filesRows: Row[][]) {
    const map = new Map<string, { name: string, metrics: Record<string, number> }>()
    for (const rows of filesRows) {
      const lgaCol = detectLgaColumn(rows)
      if (!lgaCol) continue
      const valCols = detectValueColumns(rows)
      if (valCols.length === 0) continue
      for (const r of rows) {
        const name = String(r[lgaCol] ?? '').trim()
        ...
      }
    }
    return Array.from(map.entries()).map(...)
  }
  \<close>
\<close>

definition rowName :: "'n runtime \<Rightarrow> string \<Rightarrow> 'n Row \<Rightarrow> string" where
  "rowName rt col r =
     trim (toString rt (let v = get r col in if nullish v then JStr [] else v))"

definition aggregateFile :: "'n runtime \<Rightarrow> 'n region_map \<Rightarrow> 'n Row list \<Rightarrow> 'n region_map" where
  "aggregateFile rt m table =
     (case detectLgaColumn table of
        None \<Rightarrow> m
      | Some col \<Rightarrow>
          if col = [] then m
          else let valCols = detectValueColumns table
               in if valCols = [] then m
                  else foldl (\<lambda>m r. addRow rt valCols (rowName rt col r) r m) m table)"

definition aggregateByLga :: "'n runtime \<Rightarrow> 'n Row list list \<Rightarrow> 'n region list" where
  "aggregateByLga rt filesRows = entries (foldl (aggregateFile rt) [] filesRows)"

text \<open>
  \<^verbatim>\<open>
  export type FileMapping = { name: string, rows: Row[], lgaCol: string | null, valueCols: string[] }

  export function aggregateByLgaWithMapping(files: FileMapping[]) {
    const map = new Map<string, { name: string, metrics: Record<string, number> }>()
    for (const f of files) {
      if (!f.lgaCol || f.valueCols.length === 0) continue
      for (const r of f.rows) {
        const raw = r[f.lgaCol]
        const name = raw == null ? '' : String(raw).trim()
        ...
      }
    }
    return Array.from(map.entries()).map(...)
  }
  \<close>
  The test \<^verbatim>\<open>!f.lgaCol\<close> holds for \<^verbatim>\<open>null\<close> and for the empty string. The record is
  generic in the type \<open>'r\<close> of a row.
\<close>

record 'r FileMapping =
  file_name :: string
  rows :: "'r list"
  lgaCol :: "string option"
  valueCols :: "string list"

definition mappingRowName :: "'n runtime \<Rightarrow> string \<Rightarrow> 'n Row \<Rightarrow> string" where
  "mappingRowName rt col r =
     (let raw = get r col in if nullish raw then [] else trim (toString rt raw))"

definition aggregateMapping :: "'n runtime \<Rightarrow> 'n region_map \<Rightarrow> 'n Row FileMapping \<Rightarrow> 'n region_map" where
  "aggregateMapping rt m f =
     (case lgaCol f of
        None \<Rightarrow> m
      | Some c \<Rightarrow>
          if c = [] \<or> valueCols f = [] then m
          else foldl (\<lambda>m r. addRow rt (valueCols f) (mappingRowName rt c r) r m) m (rows f))"

definition aggregateByLgaWithMapping :: "'n runtime \<Rightarrow> 'n Row FileMapping list \<Rightarrow> 'n region list" where
  "aggregateByLgaWithMapping rt files = entries (foldl (aggregateMapping rt) [] files)"

section \<open>Geo merger\<close>

text \<open>
  Of a feature only its \<^verbatim>\<open>properties\<close> are read and written; they are an object or
  \<^verbatim>\<open>null\<close>. The collection gets a \<^verbatim>\<open>properties\<close> object of its own with the two counts
  \<^verbatim>\<open>_attached_count\<close> and \<^verbatim>\<open>_total_features\<close>.
\<close>

type_synonym 'n props = "string \<rightharpoonup> 'n jsval"

record 'n feature =
  properties :: "'n props option"

record summary =
  attached_count :: nat
  total_features :: nat

record 'n collection =
  features :: "'n feature list"
  collection_properties :: "summary option"

definition getProp :: "'n props \<Rightarrow> string \<Rightarrow> 'n jsval" where
  "getProp props k = (case props k of None \<Rightarrow> JUndefined | Some v \<Rightarrow> v)"

definition nameFields :: "string list" where
  "nameFields = [''LGA_NAME'', ''LGA_NAME_2021'', ''LGA_NAME_2016'', ''lga_name'', ''NAME'', ''name'', ''lga'']"

text \<open>\<^verbatim>\<open>new Map(agg.map(a => [a.key, a]))\<close>: a later entry replaces an earlier one with the
  same key.\<close>

definition lookup_of :: "'n region list \<Rightarrow> (string \<rightharpoonup> 'n region)" where
  "lookup_of agg = foldl (\<lambda>m a. m(key a \<mapsto> a)) Map.empty agg"

text \<open>
  \<^verbatim>\<open>
      let key: string | null = null
      for (const nf of nameFields) {
        if (props[nf]) { key = normalizeName(props[nf]); break }
      }
  \<close>
\<close>

fun firstNameField :: "'n runtime \<Rightarrow> 'n props \<Rightarrow> string list \<Rightarrow> string option" where
  "firstNameField rt props [] = None"
| "firstNameField rt props (nf # nfs) =
     (if toBoolean rt (getProp props nf) then Some (normalizeName rt (getProp props nf))
      else firstNameField rt props nfs)"

text \<open>\<^verbatim>\<open>!key\<close> for \<^verbatim>\<open>key: string | null\<close>.\<close>

fun no_key :: "string option \<Rightarrow> bool" where
  "no_key None = True"
| "no_key (Some k) = (k = [])"

text \<open>
  The body of the loop over the features; the flag tells whether \<^verbatim>\<open>attached\<close> was
  incremented.
  \<^verbatim>\<open>
      const props = (f.properties = f.properties || {})
      ...
      if (!key && props['name']) key = normalizeName(props['name'])
      if (!key) continue
      const hit = lookup.get(key)
      if (hit) { Object.assign(props, hit.metrics); attached++ }
  \<close>
\<close>

definition Object_assign :: "'n props \<Rightarrow> (string \<rightharpoonup> 'n) \<Rightarrow> 'n props" where
  "Object_assign props ms = props ++ (map_option JNum \<circ> ms)"

definition mergeFeature ::
  "'n runtime \<Rightarrow> (string \<rightharpoonup> 'n region) \<Rightarrow> 'n feature \<Rightarrow> 'n feature \<times> bool" where
  "mergeFeature rt lookup f =
     (let props = (case properties f of None \<Rightarrow> Map.empty | Some p \<Rightarrow> p);
          f1 = f \<lparr> properties := Some props \<rparr>;
          key0 = firstNameField rt props nameFields;
          key1 = (if no_key key0 \<and> toBoolean rt (getProp props ''name'')
                  then Some (normalizeName rt (getProp props ''name'')) else key0)
      in case key1 of
           None \<Rightarrow> (f1, False)
         | Some k \<Rightarrow>
             if k = [] then (f1, False)
             else (case lookup k of
                     None \<Rightarrow> (f1, False)
                   | Some hit \<Rightarrow> (f1 \<lparr> properties := Some (Object_assign props (metrics hit)) \<rparr>, True)))"

fun mergeLoop ::
  "'n runtime \<Rightarrow> (string \<rightharpoonup> 'n region) \<Rightarrow> 'n feature list \<Rightarrow> nat \<Rightarrow> 'n feature list \<times> nat" where
  "mergeLoop rt lookup [] attached = ([], attached)"
| "mergeLoop rt lookup (f # fs) attached =
     (let (f', hit) = mergeFeature rt lookup f;
          (fs', n) = mergeLoop rt lookup fs (if hit then attached + 1 else attached)
      in (f' # fs', n))"

text \<open>
  \<^verbatim>\<open>
  export function mergeMetricsIntoGeoJSON(geo, agg) {
    const lookup = new Map(agg.map(a => [a.key, a]))
    const nameFields = ['LGA_NAME','LGA_NAME_2021','LGA_NAME_2016','lga_name','NAME','name','lga']
    let attached = 0
    for (const f of geo.features) { ... }
    ;(geo as any).properties = { _attached_count: attached, _total_features: geo.features.length }
    return geo
  }
  \<close>
\<close>

definition mergeMetricsIntoGeoJSON ::
  "'n runtime \<Rightarrow> 'n collection \<Rightarrow> 'n region list \<Rightarrow> 'n collection" where
  "mergeMetricsIntoGeoJSON rt geo agg =
     (let lookup = lookup_of agg;
          (fs, attached) = mergeLoop rt lookup (features geo) 0
      in geo \<lparr> features := fs,
               collection_properties :=
                 Some \<lparr> attached_count = attached, total_features = length fs \<rparr> \<rparr>)"

section \<open>Values that are not scalars\<close>

text \<open>
  The parameter of \<^verbatim>\<open>normalizeName\<close> and the cells of a row have type \<^verbatim>\<open>any\<close>. A value
  that is not a scalar (an object, an array, a function) enters the functions only through
  \<^verbatim>\<open>String(v)\<close>, \<^verbatim>\<open>Number(v)\<close> and the test \<^verbatim>\<open>v == null\<close>. Such a value is therefore
  represented by what the two conversions make of it: a result, or \<open>None\<close> when the
  conversion throws a \<^verbatim>\<open>TypeError\<close>, as it does for an object without a usable
  \<^verbatim>\<open>toString\<close> and \<^verbatim>\<open>valueOf\<close> (\<^verbatim>\<open>Object.create(null)\<close>, or \<^verbatim>\<open>{"toString": 1}\<close> read from
  JSON). A thrown error is the result \<open>Inl\<close> of the function.
\<close>

datatype error = TypeError

datatype 'n anyval = Prim "'n jsval" | Obj "string option" "'n option"

fun nullish_any :: "'n anyval \<Rightarrow> bool" where
  "nullish_any (Prim v) = nullish v"
| "nullish_any (Obj _ _) = False"

fun String_any :: "'n runtime \<Rightarrow> 'n anyval \<Rightarrow> error + string" where
  "String_any rt (Prim v) = Inr (toString rt v)"
| "String_any rt (Obj None _) = Inl TypeError"
| "String_any rt (Obj (Some s) _) = Inr s"


text \<open>\<^verbatim>\<open>normalizeName\<close> on any value: the source function again, with the error of
  \<^verbatim>\<open>String(s)\<close> passed on.\<close>

definition normalizeName_any :: "'n runtime \<Rightarrow> 'n anyval \<Rightarrow> error + string" where
  "normalizeName_any rt s =
     (if nullish_any s then Inr []
      else case String_any rt s of
             Inl e \<Rightarrow> Inl e
           | Inr str \<Rightarrow>
               (let t = toUpperCase str
                in Inr (trim (filter test_AZ09sp t))))"











section \<open>Notions of the specification\<close>

subsection \<open>Normalizer and detector\<close>

text \<open>A column is numeric when some row holds a number in it; a header matches the
  vocabulary when one of its words occurs in it, case ignored.\<close>

definition numeric_column :: "'n Row list \<Rightarrow> string \<Rightarrow> bool" where
  "numeric_column table c = (\<exists>r \<in> set table. \<exists>n. get r c = JNum n)"

definition matches_vocabulary :: "string \<Rightarrow> bool" where
  "matches_vocabulary c =
     (\<exists>w \<in> set vocabulary. \<exists>before after. toUpperCase c = before @ toUpperCase w @ after)"

text \<open>The vocabulary as the specification words it, with the whole word expenditure.\<close>

definition worded_vocabulary :: "string list" where
  "worded_vocabulary = [''expenditure'', ''loss'', ''amount'', ''value'', ''net'', ''total'']"

definition matches_worded_vocabulary :: "string \<Rightarrow> bool" where
  "matches_worded_vocabulary c =
     (\<exists>w \<in> set worded_vocabulary. \<exists>before after. toUpperCase c = before @ toUpperCase w @ after)"

subsection \<open>Aggregation\<close>

text \<open>A file mapping is mapped when its region column is set and it has a value column.\<close>

definition mapped :: "'n Row FileMapping \<Rightarrow> bool" where
  "mapped f = (lgaCol f \<noteq> None \<and> lgaCol f \<noteq> Some [] \<and> valueCols f \<noteq> [])"

text \<open>The region cell of a row after string coercion and trimming.\<close>

definition regionName :: "'n runtime \<Rightarrow> 'n Row FileMapping \<Rightarrow> 'n Row \<Rightarrow> string" where
  "regionName rt f r = (case lgaCol f of None \<Rightarrow> [] | Some c \<Rightarrow> mappingRowName rt c r)"

text \<open>The rows that count, in the order of the files and of the rows in a file: the rows of
  the mapped files whose region cell is not blank, each with its trimmed name and the value
  columns of its file.\<close>

type_synonym 'n named_row = "string \<times> string list \<times> 'n Row"

definition namedRowsOf :: "'n runtime \<Rightarrow> 'n Row FileMapping \<Rightarrow> 'n named_row list" where
  "namedRowsOf rt f =
     (if mapped f
      then map (\<lambda>r. (regionName rt f r, valueCols f, r)) (filter (\<lambda>r. regionName rt f r \<noteq> []) (rows f))
      else [])"

definition namedRows :: "'n runtime \<Rightarrow> 'n Row FileMapping list \<Rightarrow> 'n named_row list" where
  "namedRows rt files = concat (map (namedRowsOf rt) files)"

definition rowKey :: "'n runtime \<Rightarrow> 'n named_row \<Rightarrow> string" where
  "rowKey rt nr = normalizeName rt (JStr (fst nr))"

definition rowsOfKey :: "'n runtime \<Rightarrow> string \<Rightarrow> 'n named_row list \<Rightarrow> 'n named_row list" where
  "rowsOfKey rt k nrs = filter (\<lambda>nr. rowKey rt nr = k) nrs"

text \<open>The number in the \<open>i\<close>-th value column of a row, and whether the row contributes to
  slot \<open>i\<close>: its file has an \<open>i\<close>-th value column and the cell coerces to a finite number.\<close>

definition cellNumber :: "'n runtime \<Rightarrow> nat \<Rightarrow> 'n named_row \<Rightarrow> 'n" where
  "cellNumber rt i nr = toNumber rt (get (snd (snd nr)) (fst (snd nr) ! i))"

definition contributes :: "'n runtime \<Rightarrow> nat \<Rightarrow> 'n named_row \<Rightarrow> bool" where
  "contributes rt i nr = (i < length (fst (snd nr)) \<and> num_isFinite rt (cellNumber rt i nr))"

definition contributions :: "'n runtime \<Rightarrow> nat \<Rightarrow> 'n named_row list \<Rightarrow> 'n list" where
  "contributions rt i nrs = map (cellNumber rt i) (filter (contributes rt i) nrs)"

text \<open>The content of a slot after the given contributions, added in order from zero; a
  slot without a contribution does not exist.\<close>

definition slot_sum :: "'n runtime \<Rightarrow> 'n list \<Rightarrow> 'n option" where
  "slot_sum rt vs = (if vs = [] then None else Some (foldl (num_add rt) (num_zero rt) vs))"

text \<open>The distinct elements of a list in the order of their first occurrence.\<close>

fun first_seen :: "'a list \<Rightarrow> 'a list" where
  "first_seen [] = []"
| "first_seen (x # xs) = x # filter (\<lambda>y. y \<noteq> x) (first_seen xs)"

text \<open>The row loop's body on a row that counts, and the metrics object that the rows of
  one key build up.\<close>

definition addNamedRow :: "'n runtime \<Rightarrow> 'n region_map \<Rightarrow> 'n named_row \<Rightarrow> 'n region_map" where
  "addNamedRow rt m nr = addRow rt (fst (snd nr)) (fst nr) (snd (snd nr)) m"

definition rowsMetrics :: "'n runtime \<Rightarrow> 'n named_row list \<Rightarrow> (string \<rightharpoonup> 'n)" where
  "rowsMetrics rt nrs =
     foldl (\<lambda>ms nr. addRowMetrics rt (snd (snd nr)) (fst (snd nr)) 0 ms) Map.empty nrs"


text \<open>What the aggregators maintain: the keys of the map are distinct, and each is the
  normalized display name of its bucket.\<close>

definition keyed :: "'n runtime \<Rightarrow> 'n region_map \<Rightarrow> bool" where
  "keyed rt m =
     (distinct (map fst m) \<and> list_all (\<lambda>kb. fst kb = normalizeName rt (JStr (name (snd kb)))) m)"

text \<open>The finite numbers that the first value column of a file holds for a region key.\<close>

definition firstColumnValues :: "'n runtime \<Rightarrow> 'n Row FileMapping \<Rightarrow> string \<Rightarrow> 'n list" where
  "firstColumnValues rt f k =
     map (\<lambda>r. toNumber rt (get r (hd (valueCols f))))
       (filter (\<lambda>r. regionName rt f r \<noteq> [] \<and> normalizeName rt (JStr (regionName rt f r)) = k
                    \<and> num_isFinite rt (toNumber rt (get r (hd (valueCols f)))))
          (rows f))"

subsection \<open>Merging\<close>

definition props_of :: "'n feature \<Rightarrow> 'n props" where
  "props_of f = (case properties f of None \<Rightarrow> Map.empty | Some p \<Rightarrow> p)"

text \<open>The name of a feature as the specification resolves it: the first candidate
  property with a present, non-empty value, the candidates including \<^verbatim>\<open>name\<close>.\<close>

definition found_name :: "'n runtime \<Rightarrow> 'n props \<Rightarrow> 'n jsval option" where
  "found_name rt props =
     map_option (getProp props) (find (\<lambda>nf. toBoolean rt (getProp props nf)) (nameFields @ [''name'']))"

text \<open>The key that the code looks up: the normalized found name when it is not empty;
  when it is empty, the normalized \<^verbatim>\<open>name\<close> property if that is present and not empty.\<close>

definition resolved_key :: "'n runtime \<Rightarrow> 'n props \<Rightarrow> string option" where
  "resolved_key rt props =
     (case found_name rt props of
        None \<Rightarrow> None
      | Some v \<Rightarrow>
          if normalizeName rt v \<noteq> [] then Some (normalizeName rt v)
          else if toBoolean rt (getProp props ''name'') \<and> normalizeName rt (getProp props ''name'') \<noteq> []
               then Some (normalizeName rt (getProp props ''name''))
               else None)"

text \<open>The bucket of a key in an aggregated list: the last entry with that key.\<close>

definition bucket_of :: "'n region list \<Rightarrow> string \<Rightarrow> 'n region option" where
  "bucket_of agg k = find (\<lambda>a. key a = k) (rev agg)"

text \<open>The bucket that a feature is matched with, if any.\<close>

definition matched_bucket :: "'n runtime \<Rightarrow> 'n region list \<Rightarrow> 'n feature \<Rightarrow> 'n region option" where
  "matched_bucket rt agg f =
     (case resolved_key rt (props_of f) of None \<Rightarrow> None | Some k \<Rightarrow> bucket_of agg k)"

text \<open>A feature receives a metric when it is matched with a bucket that has one.\<close>

definition receives_metric :: "'n runtime \<Rightarrow> 'n region list \<Rightarrow> 'n feature \<Rightarrow> bool" where
  "receives_metric rt agg f =
     (case matched_bucket rt agg f of None \<Rightarrow> False | Some hit \<Rightarrow> dom (metrics hit) \<noteq> {})"

section \<open>A runtime over integer-valued numbers\<close>

text \<open>
  To evaluate the definitions at concrete inputs, \<open>int_runtime\<close> instantiates the runtime
  with NaN, the two infinities and the integers. It agrees with the language on integers of
  magnitude below \<open>2^53\<close>, and on strings that are blank, unsigned decimal integer literals
  or not numeric at all, which is all that the examples below use.
\<close>

datatype intnum = NaN | PosInf | NegInf | Fin int

fun intnum_add :: "intnum \<Rightarrow> intnum \<Rightarrow> intnum" where
  "intnum_add (Fin a) (Fin b) = Fin (a + b)"
| "intnum_add NaN _ = NaN"
| "intnum_add _ NaN = NaN"
| "intnum_add PosInf NegInf = NaN"
| "intnum_add NegInf PosInf = NaN"
| "intnum_add PosInf _ = PosInf"
| "intnum_add _ PosInf = PosInf"
| "intnum_add NegInf _ = NegInf"
| "intnum_add _ NegInf = NegInf"

fun intnum_isFinite :: "intnum \<Rightarrow> bool" where
  "intnum_isFinite (Fin _) = True"
| "intnum_isFinite _ = False"

fun intnum_truthy :: "intnum \<Rightarrow> bool" where
  "intnum_truthy NaN = False"
| "intnum_truthy (Fin a) = (a \<noteq> 0)"
| "intnum_truthy _ = True"

fun intnum_to_string :: "intnum \<Rightarrow> string" where
  "intnum_to_string NaN = ''NaN''"
| "intnum_to_string PosInf = ''Infinity''"
| "intnum_to_string NegInf = ''-Infinity''"
| "intnum_to_string (Fin a) = (if a < 0 then CHR ''-'' # decimal (nat (- a)) else decimal (nat a))"

definition digit_value :: "char \<Rightarrow> nat option" where
  "digit_value c = map_of (zip ''0123456789'' [0, 1, 2, 3, 4, 5, 6, 7, 8, 9]) c"

fun digits_value :: "nat \<Rightarrow> string \<Rightarrow> nat option" where
  "digits_value acc [] = Some acc"
| "digits_value acc (c # cs) =
     (case digit_value c of None \<Rightarrow> None | Some d \<Rightarrow> digits_value (10 * acc + d) cs)"

definition intnum_of_string :: "string \<Rightarrow> intnum" where
  "intnum_of_string s =
     (case trim s of
        [] \<Rightarrow> Fin 0
      | c # cs \<Rightarrow>
          (case digits_value 0 (c # cs) of
             Some n \<Rightarrow> Fin (int n)
           | None \<Rightarrow> NaN))"

definition int_runtime :: "intnum runtime" where
  "int_runtime =
     \<lparr> num_add = intnum_add, num_zero = Fin 0, num_one = Fin 1, num_nan = NaN,
       num_isFinite = intnum_isFinite, num_truthy = intnum_truthy,
       num_of_string = intnum_of_string, num_to_string = intnum_to_string \<rparr>"

section \<open>Example inputs\<close>

definition spend_file :: "intnum Row FileMapping" where
  "spend_file =
     \<lparr> file_name = ''spend.xlsx'',
       rows = [[(''LGA'', JStr ''Melbourne''), (''spend'', JNum (Fin 10))],
               [(''LGA'', JStr '' MELBOURNE ''), (''spend'', JNum (Fin 5))],
               [(''LGA'', JStr ''Yarra''), (''spend'', JStr ''N/A'')],
               [(''LGA'', JStr ''  ''), (''spend'', JNum (Fin 3))]],
       lgaCol = Some ''LGA'',
       valueCols = [''spend''] \<rparr>"

definition losses_file :: "intnum Row FileMapping" where
  "losses_file =
     \<lparr> file_name = ''losses.xlsx'',
       rows = [[(''Council'', JStr ''MELBOURNE''), (''losses'', JNum (Fin 7)), (''venues'', JNum (Fin 1))],
               [(''Council'', JStr ''Yarra''), (''losses'', JNum (Fin 2)), (''venues'', JStr ''n/a'')]],
       lgaCol = Some ''Council'',
       valueCols = [''losses'', ''venues''] \<rparr>"



definition venues_table :: "intnum Row list" where
  "venues_table =
     [[(''LGA'', JStr ''Hume''), (''Venues'', JStr ''12''), (''Net Expenditure'', JStr ''-''),
       (''Population'', JNum (Fin 900)), (''TOTAL LOSSES'', JNum (Fin 70))],
      [(''LGA'', JStr ''Yarra''), (''Venues'', JNum (Fin 3)), (''Net Expenditure'', JNum (Fin 40)),
       (''Population'', JStr ''''), (''TOTAL LOSSES'', JStr '''')]]"

definition na_file :: "intnum Row FileMapping" where
  "na_file =
     \<lparr> file_name = ''pending.csv'',
       rows = [[(''LGA'', JStr ''Yarra''), (''spend'', JStr ''N/A'')]],
       lgaCol = Some ''LGA'',
       valueCols = [''spend''] \<rparr>"

definition dash_file :: "intnum Row FileMapping" where
  "dash_file =
     \<lparr> file_name = ''other.csv'',
       rows = [[(''LGA'', JStr ''-''), (''spend'', JStr ''5'')]],
       lgaCol = Some ''LGA'',
       valueCols = [''spend''] \<rparr>"

definition yarra_feature :: "intnum feature" where
  "yarra_feature =
     \<lparr> properties =
         Some [''LGA_NAME'' \<mapsto> JStr ''Yarra'', ''AREA'' \<mapsto> JNum (Fin 19),
               ''metric_1'' \<mapsto> JStr ''old''] \<rparr>"

definition hume_feature :: "intnum feature" where
  "hume_feature = \<lparr> properties = Some [''LGA_NAME'' \<mapsto> JStr ''Hume''] \<rparr>"

definition bare_feature :: "intnum feature" where
  "bare_feature = \<lparr> properties = None \<rparr>"

definition dash_feature :: "intnum feature" where
  "dash_feature = \<lparr> properties = Some [''LGA_NAME'' \<mapsto> JStr ''-''] \<rparr>"

definition example_geo :: "intnum collection" where
  "example_geo =
     \<lparr> features = [yarra_feature, hume_feature, bare_feature], collection_properties = None \<rparr>"

definition yarra_geo :: "intnum collection" where
  "yarra_geo = \<lparr> features = [yarra_feature], collection_properties = None \<rparr>"

definition dash_geo :: "intnum collection" where
  "dash_geo = \<lparr> features = [dash_feature], collection_properties = None \<rparr>"

definition expected_table :: "intnum Row list" where
  "expected_table =
     [[(''LGA'', JStr ''Hume''), (''Pop'', JNum (Fin 900)), (''Expected'', JNum (Fin 70))]]"

definition sparse_table :: "intnum Row list" where
  "sparse_table =
     [[(''LGA'', JStr ''Hume'')],
      [(''LGA'', JStr ''Yarra''), (''Total'', JNum (Fin 5))]]"


section \<open>Properties of the normalizer\<close>

lemma toUpperChar_key_alphabet: "\<forall>c \<in> set key_alphabet. toUpperChar c = c"
  by (simp add: key_alphabet_def toUpperChar_def)

lemma isWhiteSpace_key_alphabet: "\<forall>c \<in> set key_alphabet. isWhiteSpace c = (c = CHR '' '')"
  by (simp add: key_alphabet_def isWhiteSpace_def)

lemma test_AZ09sp_eq: "test_AZ09sp = (\<lambda>c. c \<in> set key_alphabet)"
  by (rule ext) (simp add: test_AZ09sp_def)

lemma dropWhile_fixed: "xs = [] \<or> \<not> P (hd xs) \<Longrightarrow> dropWhile P xs = xs"
  by (cases xs) auto

lemma hd_rev_dropWhile_rev:
  assumes "u = [] \<or> \<not> P (hd u)"
  shows "rev (dropWhile P (rev u)) = [] \<or> \<not> P (hd (rev (dropWhile P (rev u))))"
proof (cases u)
  case Nil
  then show ?thesis by simp
next
  case (Cons x xs)
  with assms have nx: "\<not> P x" by simp
  have "dropWhile P (rev xs @ [x]) = dropWhile P (rev xs) @ [x]"
    using nx by (simp add: dropWhile_append3)
  then show ?thesis using Cons nx by simp
qed

text \<open>Stripping both ends of a list twice is stripping it once.\<close>

lemma strip_idem:
  "rev (dropWhile P (rev (dropWhile P (rev (dropWhile P (rev (dropWhile P s))))))) =
   rev (dropWhile P (rev (dropWhile P s)))"
proof -
  let ?u = "dropWhile P s"
  let ?t = "rev (dropWhile P (rev ?u))"
  have u: "?u = [] \<or> \<not> P (hd ?u)"
    using hd_dropWhile[of P s] by blast
  have t: "?t = [] \<or> \<not> P (hd ?t)"
    using u by (rule hd_rev_dropWhile_rev[of "dropWhile P s" P])
  have 1: "dropWhile P ?t = ?t"
    using t by (rule dropWhile_fixed[of "rev (dropWhile P (rev (dropWhile P s)))" P])
  have "dropWhile P (rev ?u) = [] \<or> \<not> P (hd (dropWhile P (rev ?u)))"
    using hd_dropWhile[of P "rev ?u"] by blast
  then have 2: "dropWhile P (dropWhile P (rev ?u)) = dropWhile P (rev ?u)"
    by (rule dropWhile_fixed[of "dropWhile P (rev (dropWhile P s))" P])
  show ?thesis unfolding 1 by (simp add: 2)
qed

lemma trim_idem: "trim (trim s) = trim s"
  unfolding trim_def by (rule strip_idem)

lemma set_trim: "set (trim s) \<subseteq> set s"
  unfolding trim_def by (auto dest!: set_dropWhileD)

text \<open>On a string over the key alphabet the only white space is the space, so \<open>trim\<close>
  strips spaces.\<close>

lemma trim_key_alphabet:
  assumes "set s \<subseteq> set key_alphabet"
  shows "trim s = strip_spaces s"
proof -
  have a: "dropWhile isWhiteSpace s = dropWhile (\<lambda>c. c = CHR '' '') s"
    using assms isWhiteSpace_key_alphabet by (intro dropWhile_cong) auto
  have "set (rev (dropWhile (\<lambda>c. c = CHR '' '') s)) \<subseteq> set key_alphabet"
    using assms set_dropWhileD by fastforce
  then have b: "dropWhile isWhiteSpace (rev (dropWhile (\<lambda>c. c = CHR '' '') s))
      = dropWhile (\<lambda>c. c = CHR '' '') (rev (dropWhile (\<lambda>c. c = CHR '' '') s))"
    using isWhiteSpace_key_alphabet by (intro dropWhile_cong) auto
  show ?thesis unfolding trim_def strip_spaces_def a b ..
qed

lemma set_normalizeName: "set (normalizeName rt v) \<subseteq> set key_alphabet"
proof (cases "nullish v")
  case True
  then show ?thesis by (simp add: normalizeName_def)
next
  case False
  have "set (trim (filter test_AZ09sp (toUpperCase (toString rt v))))
      \<subseteq> set (filter test_AZ09sp (toUpperCase (toString rt v)))"
    by (rule set_trim)
  also have "\<dots> \<subseteq> set key_alphabet"
    by (auto simp: test_AZ09sp_def)
  finally show ?thesis using False by (simp add: normalizeName_def)
qed

lemma normalizeName_any_Prim: "normalizeName_any rt (Prim v) = Inr (normalizeName rt v)"
  by (simp add: normalizeName_any_def normalizeName_def)

lemma strip_spaces_ends:
  "strip_spaces s = [] \<or> (hd (strip_spaces s) \<noteq> CHR '' '' \<and> last (strip_spaces s) \<noteq> CHR '' '')"
proof -
  define P where "P = (\<lambda>c. c = CHR '' '')"
  define u where "u = dropWhile P s"
  define w where "w = dropWhile P (rev u)"
  have t: "strip_spaces s = rev w"
    by (simp add: strip_spaces_def w_def u_def P_def)
  have u: "u = [] \<or> \<not> P (hd u)"
    unfolding u_def using hd_dropWhile[of P s] by blast
  have h: "rev w = [] \<or> \<not> P (hd (rev w))"
    unfolding w_def using u by (rule hd_rev_dropWhile_rev)
  have l: "w = [] \<or> \<not> P (hd w)"
    unfolding w_def using hd_dropWhile[of P "rev u"] by blast
  show ?thesis
  proof (cases "w = []")
    case True
    then show ?thesis by (simp add: t)
  next
    case False
    then have "last (rev w) = hd w" by (simp add: last_rev)
    with False h l show ?thesis by (simp add: t P_def)
  qed
qed

lemma normalizeName_string:
  "trim (filter test_AZ09sp (toUpperCase str))
     = strip_spaces (filter (\<lambda>c. c \<in> set key_alphabet) (toUpperCase str))"
proof -
  have "trim (filter test_AZ09sp (toUpperCase str)) = strip_spaces (filter test_AZ09sp (toUpperCase str))"
    by (rule trim_key_alphabet) (auto simp: test_AZ09sp_def)
  then show ?thesis by (simp add: test_AZ09sp_eq)
qed

lemma set_strip_spaces: "set (strip_spaces s) \<subseteq> set s"
  unfolding strip_spaces_def by (auto dest!: set_dropWhileD)

text \<open>
  Claim C4, as amended. \<open>normalizeName\<close> returns a string for every scalar and for every
  other value that \<^verbatim>\<open>String\<close> can convert: \<^verbatim>\<open>null\<close> and \<^verbatim>\<open>undefined\<close> give the empty string;
  any other such value is coerced to a string, upper-cased, filtered to the characters of
  \<^verbatim>\<open>[A-Z0-9 ]\<close> and stripped of its leading and trailing spaces, so that a key has only
  these characters and neither starts nor ends with a space. On a scalar the result is
  that of the scalar function used above. For a value whose conversion to a string throws,
  \<open>normalizeName\<close> raises that \<^verbatim>\<open>TypeError\<close>.
\<close>

theorem normalizeName_any_total:
  "normalizeName_any rt (Prim JNull) = Inr [] \<and>
   normalizeName_any rt (Prim JUndefined) = Inr [] \<and>
   normalizeName_any rt (Prim v) = Inr (normalizeName rt v) \<and>
   normalizeName_any rt (Prim v) =
     Inr (if nullish v then []
          else strip_spaces (filter (\<lambda>c. c \<in> set key_alphabet) (toUpperCase (toString rt v)))) \<and>
   normalizeName_any rt (Obj (Some str) n) =
     Inr (strip_spaces (filter (\<lambda>c. c \<in> set key_alphabet) (toUpperCase str))) \<and>
   normalizeName_any rt (Obj None n) = Inl TypeError \<and>
   (normalizeName_any rt s = Inr k \<longrightarrow>
      set k \<subseteq> set key_alphabet \<and> (k = [] \<or> (hd k \<noteq> CHR '' '' \<and> last k \<noteq> CHR '' '')))"
proof (intro conjI impI)
  show "normalizeName_any rt (Prim JNull) = Inr []"
    and "normalizeName_any rt (Prim JUndefined) = Inr []"
    by (simp_all add: normalizeName_any_def)
  show "normalizeName_any rt (Prim v) = Inr (normalizeName rt v)"
    by (rule normalizeName_any_Prim)
  show "normalizeName_any rt (Prim v) =
     Inr (if nullish v then []
          else strip_spaces (filter (\<lambda>c. c \<in> set key_alphabet) (toUpperCase (toString rt v))))"
    by (simp add: normalizeName_any_def normalizeName_string)
  show "normalizeName_any rt (Obj (Some str) n) =
     Inr (strip_spaces (filter (\<lambda>c. c \<in> set key_alphabet) (toUpperCase str)))"
    by (simp add: normalizeName_any_def normalizeName_string)
  show "normalizeName_any rt (Obj None n) = Inl TypeError"
    by (simp add: normalizeName_any_def)
next
  assume a: "normalizeName_any rt s = Inr k"
  have "k = [] \<or> (\<exists>str. k = strip_spaces (filter (\<lambda>c. c \<in> set key_alphabet) (toUpperCase str)))"
    using a by (auto simp: normalizeName_any_def normalizeName_string split: if_splits sum.splits)
  then show "set k \<subseteq> set key_alphabet"
    using set_strip_spaces by fastforce
  from \<open>k = [] \<or> (\<exists>str. k = strip_spaces (filter (\<lambda>c. c \<in> set key_alphabet) (toUpperCase str)))\<close>
  show "k = [] \<or> (hd k \<noteq> CHR '' '' \<and> last k \<noteq> CHR '' '')"
    using strip_spaces_ends by auto
qed

theorem normalizeName_any_total_witness:
  "normalizeName_any int_runtime (Prim JNull) = Inr [] \<and>
   normalizeName_any int_runtime (Prim (JStr '' Yarra (C) '')) = Inr ''YARRA C'' \<and>
   normalizeName_any int_runtime (Obj (Some ''[object Object]'') (Some NaN)) = Inr ''OBJECT OBJECT'' \<and>
   set ''YARRA C'' \<subseteq> set key_alphabet"
proof -
  note t = normalizeName_any_total[of int_runtime "JStr '' Yarra (C) ''" "''[object Object]''"
      "Some NaN" "Prim (JStr '' Yarra (C) '')" "''YARRA C''"]
  from t have n: "normalizeName_any int_runtime (Prim JNull) = Inr []"
    by blast
  from t have "normalizeName_any int_runtime (Prim (JStr '' Yarra (C) '')) =
     Inr (if nullish (JStr '' Yarra (C) '' :: intnum jsval) then []
          else strip_spaces (filter (\<lambda>c. c \<in> set key_alphabet)
                 (toUpperCase (toString int_runtime (JStr '' Yarra (C) '')))))"
    by blast
  then have y: "normalizeName_any int_runtime (Prim (JStr '' Yarra (C) '')) = Inr ''YARRA C''"
    by (simp add: strip_spaces_def toUpperCase_def toUpperChar_def key_alphabet_def)
  from t have "normalizeName_any int_runtime (Obj (Some ''[object Object]'') (Some NaN)) =
     Inr (strip_spaces (filter (\<lambda>c. c \<in> set key_alphabet) (toUpperCase ''[object Object]'')))"
    by blast
  then have obj: "normalizeName_any int_runtime (Obj (Some ''[object Object]'') (Some NaN))
      = Inr ''OBJECT OBJECT''"
    by (simp add: strip_spaces_def toUpperCase_def toUpperChar_def key_alphabet_def)
  from t y have "set ''YARRA C'' \<subseteq> set key_alphabet"
    by blast
  with n y obj show ?thesis by blast
qed

text \<open>The claim C4 as it was stated fails on an object without a usable \<^verbatim>\<open>toString\<close> and
  \<^verbatim>\<open>valueOf\<close>, such as \<^verbatim>\<open>Object.create(null)\<close>: \<^verbatim>\<open>String(s)\<close> throws.\<close>

theorem normalizeName_any_total_counterexample:
  "normalizeName_any int_runtime (Obj None None) = Inl TypeError"
  by (simp add: normalizeName_any_def)

text \<open>
  Claim C5. Normalization is idempotent: normalizing the key of any value gives that key
  again.
\<close>

theorem normalizeName_idempotent:
  "normalizeName rt (JStr (normalizeName rt x)) = normalizeName rt x"
proof (cases "nullish x")
  case True
  then show ?thesis by (simp add: normalizeName_def toUpperCase_def trim_def)
next
  case False
  define s where "s = filter test_AZ09sp (toUpperCase (toString rt x))"
  have n: "normalizeName rt x = trim s"
    using False by (simp add: normalizeName_def s_def)
  have sub: "set (trim s) \<subseteq> set key_alphabet"
    using set_trim[of s] by (auto simp: s_def test_AZ09sp_def)
  have up: "toUpperCase (trim s) = trim s"
    unfolding toUpperCase_def using sub toUpperChar_key_alphabet by (intro map_idI) auto
  have fl: "filter test_AZ09sp (trim s) = trim s"
    using sub by (auto simp: test_AZ09sp_def filter_id_conv)
  show ?thesis unfolding n by (simp add: normalizeName_def up fl trim_idem)
qed

theorem normalizeName_idempotent_witness:
  "normalizeName int_runtime (JStr (normalizeName int_runtime (JStr ''City of  Yarra!''))) = ''CITY OF  YARRA''"
proof -
  have "normalizeName int_runtime (JStr ''City of  Yarra!'') = ''CITY OF  YARRA''"
    by (simp add: normalizeName_def toUpperCase_def toUpperChar_def test_AZ09sp_def
        key_alphabet_def trim_def isWhiteSpace_def)
  then show ?thesis
    using normalizeName_idempotent[of int_runtime "JStr ''City of  Yarra!''"] by simp
qed

text \<open>
  Claim C6, as amended. \<open>normalizeName\<close> ignores case and punctuation but keeps every
  inner space: \<^verbatim>\<open>"Greater Geelong"\<close> gives \<^verbatim>\<open>"GREATER GEELONG"\<close>, and
  \<^verbatim>\<open>"GREATER   GEELONG!!"\<close> gives \<^verbatim>\<open>"GREATER   GEELONG"\<close> with its three inner spaces;
  with a single inner space, \<^verbatim>\<open>"GREATER GEELONG!!"\<close> gives \<^verbatim>\<open>"GREATER GEELONG"\<close> too.
\<close>

theorem normalizeName_geelong:
  "normalizeName rt (JStr ''Greater Geelong'') = ''GREATER GEELONG'' \<and>
   normalizeName rt (JStr ''GREATER   GEELONG!!'') = ''GREATER   GEELONG'' \<and>
   normalizeName rt (JStr ''GREATER GEELONG!!'') = normalizeName rt (JStr ''Greater Geelong'')"
  by (simp add: normalizeName_def toUpperCase_def toUpperChar_def test_AZ09sp_def
      key_alphabet_def trim_def isWhiteSpace_def)

text \<open>The two strings of the claim do not normalize to the same key.\<close>

theorem normalizeName_geelong_counterexample:
  "normalizeName int_runtime (JStr ''GREATER   GEELONG!!'') \<noteq> ''GREATER GEELONG'' \<and>
   normalizeName int_runtime (JStr ''Greater Geelong'')
     \<noteq> normalizeName int_runtime (JStr ''GREATER   GEELONG!!'')"
  by (simp add: normalizeName_def toUpperCase_def toUpperChar_def test_AZ09sp_def
      key_alphabet_def trim_def isWhiteSpace_def)

section \<open>Properties of the aggregator\<close>

subsection \<open>Metric names and the loop over the value columns\<close>

lemma decimal_nonempty: "decimal n \<noteq> []"
  by (subst decimal.simps) simp

lemma digit_inj: "d < 10 \<Longrightarrow> e < 10 \<Longrightarrow> digit d = digit e \<Longrightarrow> d = e"
proof -
  assume a: "d < 10" "e < 10" "digit d = digit e"
  have "distinct ''0123456789''" by simp
  moreover have "d < length ''0123456789''" "e < length ''0123456789''" using a by simp_all
  ultimately show "d = e" using a(3) unfolding digit_def by (simp only: nth_eq_iff_index_eq)
qed

lemma decimal_inj: "decimal n = decimal m \<Longrightarrow> n = m"
proof (induction n arbitrary: m rule: decimal.induct)
  case (1 n)
  show ?case
  proof (cases "n < 10")
    case n: True
    show ?thesis
    proof (cases "m < 10")
      case True
      with n "1.prems" show ?thesis
        by (simp add: decimal.simps[of n] decimal.simps[of m] digit_inj)
    next
      case False
      with n "1.prems" decimal_nonempty[of "m div 10"] show ?thesis
        by (simp add: decimal.simps[of n] decimal.simps[of m])
    qed
  next
    case n: False
    show ?thesis
    proof (cases "m < 10")
      case True
      with n "1.prems" decimal_nonempty[of "n div 10"] show ?thesis
        by (simp add: decimal.simps[of n] decimal.simps[of m])
    next
      case False
      with n "1.prems" have e: "decimal (n div 10) = decimal (m div 10)" "digit (n mod 10) = digit (m mod 10)"
        by (simp_all add: decimal.simps[of n] decimal.simps[of m])
      from "1.IH"[OF n e(1)] have "n div 10 = m div 10" .
      moreover from e(2) have "n mod 10 = m mod 10" by (intro digit_inj) simp_all
      ultimately show ?thesis by (metis div_mult_mod_eq)
    qed
  qed
qed

lemma metricKey_inj: "metricKey i = metricKey j \<longleftrightarrow> i = j"
  using decimal_inj[of "i + 1" "j + 1"] by (auto simp: metricKey_def)

lemma metricKey_0: "metricKey 0 = ''metric_1''"
  by (simp add: metricKey_def decimal.simps digit_def)

lemma addRowMetrics_slot:
  "addRowMetrics rt r cs idx ms (metricKey j) =
     (if idx \<le> j \<and> j < idx + length cs \<and> num_isFinite rt (toNumber rt (get r (cs ! (j - idx))))
      then Some (num_add rt (case ms (metricKey j) of None \<Rightarrow> num_zero rt | Some x \<Rightarrow> x)
                   (toNumber rt (get r (cs ! (j - idx)))))
      else ms (metricKey j))"
proof (induction cs arbitrary: idx ms)
  case Nil
  then show ?case by auto
next
  case (Cons c cs)
  show ?case
  proof (cases "j = idx")
    case True
    have "addRowMetrics rt r (c # cs) j ms (metricKey j) =
      (if num_isFinite rt (toNumber rt (get r c))
       then Some (num_add rt (case ms (metricKey j) of None \<Rightarrow> num_zero rt | Some x \<Rightarrow> x)
                   (toNumber rt (get r c)))
       else ms (metricKey j))"
      by (simp add: Cons.IH Let_def)
    then show ?thesis unfolding True by simp
  next
    case False
    then have k: "metricKey idx \<noteq> metricKey j" by (simp add: metricKey_inj)
    show ?thesis
    proof (cases "idx < j")
      case True
      then have "(c # cs) ! (j - idx) = cs ! (j - Suc idx)" by (simp add: nth_Cons')
      with True k show ?thesis by (auto simp: Cons.IH Let_def)
    next
      case f: False
      with False k show ?thesis by (auto simp: Cons.IH Let_def)
    qed
  qed
qed


lemma set_first_seen: "set (first_seen xs) = set xs"
  by (induction xs) auto

lemma distinct_first_seen: "distinct (first_seen xs)"
  by (induction xs) auto

lemma first_seen_snoc:
  "first_seen (xs @ [y]) = (if y \<in> set xs then first_seen xs else first_seen xs @ [y])"
  by (induction xs) auto

subsection \<open>The row loop as a fold over the rows that count\<close>

lemma addRow_blank: "addRow rt cs [] r m = m"
  by (simp add: addRow_def)

lemma addNamedRow_keys:
  "fst nr \<noteq> [] \<Longrightarrow>
   map fst (addNamedRow rt m nr) =
     (if rowKey rt nr \<in> set (map fst m) then map fst m else map fst m @ [rowKey rt nr])"
  by (simp add: addNamedRow_def addRow_def Let_def rowKey_def update_keys)

lemma addNamedRow_lookup:
  "fst nr \<noteq> [] \<Longrightarrow>
   map_of (addNamedRow rt m nr) =
     (map_of m)(rowKey rt nr \<mapsto>
        (case map_of m (rowKey rt nr) of
           None \<Rightarrow> \<lparr> name = fst nr, metrics = addRowMetrics rt (snd (snd nr)) (fst (snd nr)) 0 Map.empty \<rparr>
         | Some b \<Rightarrow> b \<lparr> metrics := addRowMetrics rt (snd (snd nr)) (fst (snd nr)) 0 (metrics b) \<rparr>))"
  by (auto simp: addNamedRow_def addRow_def Let_def rowKey_def update_conv' split: option.splits)

lemma foldl_rows_flat:
  "foldl (\<lambda>m r. addRow rt cs (nameOf r) r m) m rs =
   foldl (addNamedRow rt) m (map (\<lambda>r. (nameOf r, cs, r)) (filter (\<lambda>r. nameOf r \<noteq> []) rs))"
  by (induction rs arbitrary: m) (simp_all add: addRow_blank addNamedRow_def)

lemma aggregateMapping_flat:
  "aggregateMapping rt m f = foldl (addNamedRow rt) m (namedRowsOf rt f)"
proof (cases "lgaCol f")
  case None
  then show ?thesis by (simp add: aggregateMapping_def namedRowsOf_def mapped_def)
next
  case (Some c)
  show ?thesis
  proof (cases "c = [] \<or> valueCols f = []")
    case True
    with Some show ?thesis by (auto simp: aggregateMapping_def namedRowsOf_def mapped_def)
  next
    case False
    have r: "regionName rt f = mappingRowName rt c"
      using Some by (intro ext) (simp add: regionName_def)
    from False Some have "mapped f" by (simp add: mapped_def)
    with False Some show ?thesis
      by (simp add: aggregateMapping_def namedRowsOf_def r foldl_rows_flat)
  qed
qed

lemma foldl_aggregateMapping:
  "foldl (aggregateMapping rt) m files = foldl (addNamedRow rt) m (namedRows rt files)"
  by (induction files arbitrary: m) (simp_all add: namedRows_def aggregateMapping_flat)

lemma aggregateByLgaWithMapping_flat:
  "aggregateByLgaWithMapping rt files = entries (foldl (addNamedRow rt) [] (namedRows rt files))"
  by (simp add: aggregateByLgaWithMapping_def foldl_aggregateMapping)

lemma namedRowsOf_named: "nr \<in> set (namedRowsOf rt f) \<Longrightarrow> fst nr \<noteq> []"
  by (auto simp: namedRowsOf_def split: if_splits)

lemma namedRows_named: "nr \<in> set (namedRows rt files) \<Longrightarrow> fst nr \<noteq> []"
  by (auto simp: namedRows_def dest: namedRowsOf_named)

lemma fold_keys:
  "(\<And>nr. nr \<in> set nrs \<Longrightarrow> fst nr \<noteq> []) \<Longrightarrow>
   map fst (foldl (addNamedRow rt) [] nrs) = first_seen (map (rowKey rt) nrs)"
proof (induction nrs rule: rev_induct)
  case Nil
  then show ?case by simp
next
  case (snoc nr nrs)
  then have ih: "map fst (foldl (addNamedRow rt) [] nrs) = first_seen (map (rowKey rt) nrs)"
    and n: "fst nr \<noteq> []" by simp_all
  have "set (first_seen (map (rowKey rt) nrs)) = rowKey rt ` set nrs"
    by (simp add: set_first_seen)
  then show ?case
    by (simp add: addNamedRow_keys[OF n] ih first_seen_snoc)
qed

lemma rowsMetrics_snoc:
  "rowsMetrics rt (nrs @ [nr]) = addRowMetrics rt (snd (snd nr)) (fst (snd nr)) 0 (rowsMetrics rt nrs)"
  by (simp add: rowsMetrics_def)

lemma fold_lookup:
  "(\<And>nr. nr \<in> set nrs \<Longrightarrow> fst nr \<noteq> []) \<Longrightarrow>
   map_of (foldl (addNamedRow rt) [] nrs) k =
     (if rowsOfKey rt k nrs = [] then None
      else Some \<lparr> name = fst (hd (rowsOfKey rt k nrs)), metrics = rowsMetrics rt (rowsOfKey rt k nrs) \<rparr>)"
proof (induction nrs arbitrary: k rule: rev_induct)
  case Nil
  then show ?case by (simp add: rowsOfKey_def)
next
  case (snoc nr nrs)
  then have ih: "\<And>k. map_of (foldl (addNamedRow rt) [] nrs) k =
     (if rowsOfKey rt k nrs = [] then None
      else Some \<lparr> name = fst (hd (rowsOfKey rt k nrs)), metrics = rowsMetrics rt (rowsOfKey rt k nrs) \<rparr>)"
    and n: "fst nr \<noteq> []" by simp_all
  show ?case
  proof (cases "rowKey rt nr = k")
    case False
    then show ?thesis
      by (simp add: addNamedRow_lookup[OF n] ih rowsOfKey_def)
  next
    case True
    have e: "rowsOfKey rt k (nrs @ [nr]) = rowsOfKey rt k nrs @ [nr]"
      using True by (simp add: rowsOfKey_def)
    show ?thesis
    proof (cases "rowsOfKey rt k nrs = []")
      case t: True
      then show ?thesis
        using True by (simp add: addNamedRow_lookup[OF n] ih e rowsMetrics_def)
    next
      case f: False
      then show ?thesis
        using True by (simp add: addNamedRow_lookup[OF n] ih e rowsMetrics_snoc)
    qed
  qed
qed

lemma slot_sum_snoc:
  "slot_sum rt (vs @ [v]) =
     Some (num_add rt (case slot_sum rt vs of None \<Rightarrow> num_zero rt | Some x \<Rightarrow> x) v)"
  by (simp add: slot_sum_def)

lemma rowsMetrics_slot:
  "rowsMetrics rt nrs (metricKey i) = slot_sum rt (contributions rt i nrs)"
proof (induction nrs rule: rev_induct)
  case Nil
  then show ?case by (simp add: rowsMetrics_def slot_sum_def contributions_def)
next
  case (snoc nr nrs)
  show ?case
  proof (cases "contributes rt i nr")
    case True
    then have "contributions rt i (nrs @ [nr]) = contributions rt i nrs @ [cellNumber rt i nr]"
      by (simp add: contributions_def)
    with True snoc show ?thesis
      by (simp add: rowsMetrics_snoc addRowMetrics_slot slot_sum_snoc contributes_def cellNumber_def)
  next
    case False
    then have "contributions rt i (nrs @ [nr]) = contributions rt i nrs"
      by (simp add: contributions_def)
    with False snoc show ?thesis
      by (auto simp add: rowsMetrics_snoc addRowMetrics_slot contributes_def cellNumber_def)
  qed
qed


lemma map_key_entries: "map key (entries m) = map fst m"
  by (induction m) (auto simp: entries_def)

lemma entries_lookup:
  "distinct (map fst m) \<Longrightarrow> e \<in> set (entries m) \<Longrightarrow>
   \<exists>b. map_of m (key e) = Some b \<and> name e = name b \<and> metrics e = metrics b"
  by (auto simp: entries_def)

subsection \<open>The result of the aggregator\<close>


lemma aggregate_keys:
  "map key (aggregateByLgaWithMapping rt files) = first_seen (map (rowKey rt) (namedRows rt files))"
  by (simp add: aggregateByLgaWithMapping_flat map_key_entries fold_keys namedRows_named)

lemma aggregate_entry:
  assumes "e \<in> set (aggregateByLgaWithMapping rt files)"
  shows "rowsOfKey rt (key e) (namedRows rt files) \<noteq> []"
    and "name e = fst (hd (rowsOfKey rt (key e) (namedRows rt files)))"
    and "metrics e = rowsMetrics rt (rowsOfKey rt (key e) (namedRows rt files))"
proof -
  let ?m = "foldl (addNamedRow rt) [] (namedRows rt files)"
  have d: "distinct (map fst ?m)"
    by (simp add: fold_keys namedRows_named distinct_first_seen)
  from assms have "e \<in> set (entries ?m)" by (simp add: aggregateByLgaWithMapping_flat)
  from entries_lookup[OF d this] obtain b where
    b: "map_of ?m (key e) = Some b" "name e = name b" "metrics e = metrics b" by blast
  have l: "map_of ?m (key e) =
     (if rowsOfKey rt (key e) (namedRows rt files) = [] then None
      else Some \<lparr> name = fst (hd (rowsOfKey rt (key e) (namedRows rt files))),
                  metrics = rowsMetrics rt (rowsOfKey rt (key e) (namedRows rt files)) \<rparr>)"
    by (rule fold_lookup) (rule namedRows_named)
  from b(1) l show "rowsOfKey rt (key e) (namedRows rt files) \<noteq> []" by (auto split: if_splits)
  with b l show "name e = fst (hd (rowsOfKey rt (key e) (namedRows rt files)))"
    and "metrics e = rowsMetrics rt (rowsOfKey rt (key e) (namedRows rt files))" by auto
qed






subsection \<open>Keys of the result\<close>

lemma list_all_update:
  "list_all P m \<Longrightarrow> P (k, v) \<Longrightarrow> list_all P (AList.update k v m)"
  by (induction m) auto

lemma addRow_keyed:
  assumes "keyed rt m"
  shows "keyed rt (addRow rt cs nm r m)"
proof (cases "nm = []")
  case True
  with assms show ?thesis by (simp add: addRow_def)
next
  case False
  define k where "k = normalizeName rt (JStr nm)"
  define cur where "cur = (case map_of m k of None \<Rightarrow> \<lparr> name = nm, metrics = Map.empty \<rparr> | Some b \<Rightarrow> b)"
  have n: "k = normalizeName rt (JStr (name cur))"
  proof (cases "map_of m k")
    case None
    then show ?thesis by (simp add: cur_def k_def)
  next
    case (Some b)
    then have "(k, b) \<in> set m" by (rule map_of_SomeD)
    with assms have "k = normalizeName rt (JStr (name b))"
      by (auto simp: keyed_def list_all_iff)
    with Some show ?thesis by (simp add: cur_def)
  qed
  have "addRow rt cs nm r m = AList.update k (cur \<lparr> metrics := addRowMetrics rt r cs 0 (metrics cur) \<rparr>) m"
    using False by (simp add: addRow_def Let_def k_def cur_def)
  moreover have "keyed rt (AList.update k (cur \<lparr> metrics := addRowMetrics rt r cs 0 (metrics cur) \<rparr>) m)"
    using assms n unfolding keyed_def
    by (auto intro!: list_all_update simp: distinct_update)
  ultimately show ?thesis by simp
qed

lemma foldl_addRow_keyed:
  "keyed rt m \<Longrightarrow> keyed rt (foldl (\<lambda>m r. addRow rt cs (nameOf r) r m) m rs)"
  by (induction rs arbitrary: m) (simp_all add: addRow_keyed)

lemma aggregateFile_keyed: "keyed rt m \<Longrightarrow> keyed rt (aggregateFile rt m table)"
  by (auto simp: aggregateFile_def Let_def foldl_addRow_keyed split: option.splits)

lemma aggregateMapping_keyed: "keyed rt m \<Longrightarrow> keyed rt (aggregateMapping rt m f)"
  by (auto simp: aggregateMapping_def foldl_addRow_keyed split: option.splits)

lemma foldl_aggregateFile_keyed: "keyed rt m \<Longrightarrow> keyed rt (foldl (aggregateFile rt) m tables)"
  by (induction tables arbitrary: m) (simp_all add: aggregateFile_keyed)

lemma foldl_aggregateMapping_keyed: "keyed rt m \<Longrightarrow> keyed rt (foldl (aggregateMapping rt) m files)"
  by (induction files arbitrary: m) (simp_all add: aggregateMapping_keyed)

lemma entries_keyed:
  assumes "keyed rt m"
  shows "distinct (map key (entries m)) \<and>
         (\<forall>e \<in> set (entries m). key e = normalizeName rt (JStr (name e)))"
proof
  show "distinct (map key (entries m))"
    using assms by (simp add: keyed_def map_key_entries)
  show "\<forall>e \<in> set (entries m). key e = normalizeName rt (JStr (name e))"
    using assms by (auto simp: keyed_def list_all_iff entries_def)
qed

lemma keyed_empty: "keyed rt []"
  by (simp add: keyed_def)

text \<open>
  Claim C10. In the list that \<open>aggregateByLgaWithMapping\<close> returns, and in the list that
  \<open>aggregateByLga\<close> returns, the keys of the entries are pairwise distinct, and the key of
  each entry is the normalization of the entry's own display name.
\<close>

theorem aggregate_keys_distinct_normalized:
  "(distinct (map key (aggregateByLgaWithMapping rt files)) \<and>
    (\<forall>e \<in> set (aggregateByLgaWithMapping rt files). key e = normalizeName rt (JStr (name e)))) \<and>
   (distinct (map key (aggregateByLga rt tables)) \<and>
    (\<forall>e \<in> set (aggregateByLga rt tables). key e = normalizeName rt (JStr (name e))))"
  unfolding aggregateByLgaWithMapping_def aggregateByLga_def
  using entries_keyed[OF foldl_aggregateMapping_keyed[OF keyed_empty], of rt files]
        entries_keyed[OF foldl_aggregateFile_keyed[OF keyed_empty], of rt tables]
  by blast

subsection \<open>Slots shared across files\<close>

lemma namedRows_two: "namedRows rt [A, B] = namedRowsOf rt A @ namedRowsOf rt B"
  by (simp add: namedRows_def)

lemma contributions_append:
  "contributions rt i (rowsOfKey rt k (xs @ ys)) =
     contributions rt i (rowsOfKey rt k xs) @ contributions rt i (rowsOfKey rt k ys)"
  by (simp add: contributions_def rowsOfKey_def)

lemma contributions_first_column:
  assumes "mapped f"
  shows "contributions rt 0 (rowsOfKey rt k (namedRowsOf rt f)) = firstColumnValues rt f k"
proof -
  from assms have v: "valueCols f \<noteq> []" by (simp add: mapped_def)
  then have h: "valueCols f ! 0 = hd (valueCols f)" by (simp add: hd_conv_nth)
  show ?thesis
    using assms v
    by (auto simp: contributions_def rowsOfKey_def namedRowsOf_def firstColumnValues_def
        filter_map o_def contributes_def cellNumber_def rowKey_def h intro!: filter_cong)
qed

text \<open>
  Claim C7. Metric slots are positional and shared across files: for two mapped files
  whose first value columns have different names, slot \<open>metric_1\<close> of a region holds one
  sum over the finite cells of the first value column of the first file for that region
  followed by those of the first value column of the second file.
\<close>

theorem metric_1_shared_across_files:
  assumes "mapped A" and "mapped B"
    and "hd (valueCols A) \<noteq> hd (valueCols B)"
    and "e \<in> set (aggregateByLgaWithMapping rt [A, B])"
  shows "metrics e ''metric_1'' =
           slot_sum rt (firstColumnValues rt A (key e) @ firstColumnValues rt B (key e))"
proof -
  have "metrics e (metricKey 0) = slot_sum rt (contributions rt 0 (rowsOfKey rt (key e) (namedRows rt [A, B])))"
    using aggregate_entry(3)[OF assms(4)] by (simp add: rowsMetrics_slot)
  then show ?thesis
    by (simp add: metricKey_0 namedRows_two contributions_append contributions_first_column assms(1,2))
qed

subsection \<open>What the aggregator skips\<close>







subsection \<open>Tables of scalars raise nothing\<close>










subsection \<open>The claims at the example inputs\<close>

lemma two_files_keys:
  "first_seen (map (rowKey int_runtime) (namedRows int_runtime [spend_file, losses_file]))
     = [''MELBOURNE'', ''YARRA'']"
  by code_simp

lemma two_files_first_columns:
  "slot_sum int_runtime
     (firstColumnValues int_runtime spend_file ''MELBOURNE''
        @ firstColumnValues int_runtime losses_file ''MELBOURNE'') = Some (Fin 22)"
  "slot_sum int_runtime
     (firstColumnValues int_runtime spend_file ''YARRA''
        @ firstColumnValues int_runtime losses_file ''YARRA'') = Some (Fin 2)"
  by code_simp+

lemma two_files_mapped:
  "mapped spend_file" "mapped losses_file" "hd (valueCols spend_file) \<noteq> hd (valueCols losses_file)"
  by (simp_all add: mapped_def spend_file_def losses_file_def)

theorem metric_1_shared_across_files_witness:
  "mapped spend_file \<and> mapped losses_file \<and>
   hd (valueCols spend_file) = ''spend'' \<and> hd (valueCols losses_file) = ''losses'' \<and>
   map key (aggregateByLgaWithMapping int_runtime [spend_file, losses_file]) = [''MELBOURNE'', ''YARRA''] \<and>
   map (\<lambda>e. metrics e ''metric_1'') (aggregateByLgaWithMapping int_runtime [spend_file, losses_file])
     = [Some (Fin 22), Some (Fin 2)]"
proof -
  let ?res = "aggregateByLgaWithMapping int_runtime [spend_file, losses_file]"
  have k: "map key ?res = [''MELBOURNE'', ''YARRA'']"
    by (simp add: aggregate_keys two_files_keys)
  then obtain e1 e2 where r: "?res = [e1, e2]" and k1: "key e1 = ''MELBOURNE''" and k2: "key e2 = ''YARRA''"
    by (auto simp: map_eq_Cons_conv)
  have m1: "metrics e1 ''metric_1'' = Some (Fin 22)"
    using metric_1_shared_across_files[OF two_files_mapped, of e1 int_runtime] r k1 two_files_first_columns(1)
    by simp
  have m2: "metrics e2 ''metric_1'' = Some (Fin 2)"
    using metric_1_shared_across_files[OF two_files_mapped, of e2 int_runtime] r k2 two_files_first_columns(2)
    by simp
  show ?thesis
    using two_files_mapped(1,2) k m1 m2 unfolding r by (simp add: spend_file_def losses_file_def)
qed

lemma by_detection_length: "length (aggregateByLga int_runtime [rows spend_file]) = 2"
  by code_simp

lemma by_mapping_length: "length (aggregateByLgaWithMapping int_runtime [spend_file, losses_file]) = 2"
  by code_simp

theorem aggregate_keys_distinct_normalized_witness:
  "length (aggregateByLgaWithMapping int_runtime [spend_file, losses_file]) = 2 \<and>
   distinct (map key (aggregateByLgaWithMapping int_runtime [spend_file, losses_file])) \<and>
   map key (aggregateByLgaWithMapping int_runtime [spend_file, losses_file])
     = map (\<lambda>e. normalizeName int_runtime (JStr (name e)))
         (aggregateByLgaWithMapping int_runtime [spend_file, losses_file]) \<and>
   length (aggregateByLga int_runtime [rows spend_file]) = 2 \<and>
   distinct (map key (aggregateByLga int_runtime [rows spend_file])) \<and>
   map key (aggregateByLga int_runtime [rows spend_file])
     = map (\<lambda>e. normalizeName int_runtime (JStr (name e))) (aggregateByLga int_runtime [rows spend_file])"
  using aggregate_keys_distinct_normalized[of int_runtime "[spend_file, losses_file]" "[rows spend_file]"]
    by_detection_length by_mapping_length
  by (auto intro: map_cong)






section \<open>Properties of the column detector\<close>

lemma str_includes_iff: "str_includes s sub \<longleftrightarrow> (\<exists>before after. s = before @ sub @ after)"
proof (induction s)
  case Nil
  then show ?case by auto
next
  case (Cons c cs)
  have p: "take (length sub) (c # cs) = sub \<longleftrightarrow> (\<exists>after. c # cs = sub @ after)"
    by (metis append_eq_conv_conj append_take_drop_id)
  show ?case
  proof
    assume "str_includes (c # cs) sub"
    then consider "take (length sub) (c # cs) = sub" | "str_includes cs sub" by auto
    then show "\<exists>before after. c # cs = before @ sub @ after"
    proof cases
      case 1
      with p obtain after where "c # cs = [] @ sub @ after" by auto
      then show ?thesis by blast
    next
      case 2
      with Cons.IH obtain before after where "cs = before @ sub @ after" by blast
      then have "c # cs = (c # before) @ sub @ after" by simp
      then show ?thesis by blast
    qed
  next
    assume "\<exists>before after. c # cs = before @ sub @ after"
    then obtain before after where e: "c # cs = before @ sub @ after" by blast
    show "str_includes (c # cs) sub"
    proof (cases before)
      case Nil
      with e have "c # cs = sub @ after" by simp
      with p have "take (length sub) (c # cs) = sub" by blast
      then show ?thesis by simp
    next
      case (Cons b bs)
      with e have "cs = bs @ sub @ after" by simp
      with Cons.IH show ?thesis by auto
    qed
  qed
qed

lemma test_vocabulary_iff: "test_vocabulary c \<longleftrightarrow> matches_vocabulary c"
  by (simp add: test_vocabulary_def matches_vocabulary_def list_ex_iff str_includes_iff)

lemma typeof_number_iff: "typeof_number v \<longleftrightarrow> (\<exists>n. v = JNum n)"
  by (cases v) auto

lemma isNumCol_iff: "list_ex (\<lambda>r. typeof_number (get r c)) table \<longleftrightarrow> numeric_column table c"
  by (simp add: list_ex_iff numeric_column_def typeof_number_iff)

text \<open>
  Claim C9, as amended. The columns of a table are the keys of its first row; a column
  that only a later row has is not looked at. Such a column is numeric exactly when at
  least one row of the table holds a number in it. \<open>detectValueColumns\<close> returns the
  numeric columns whose header contains one of the strings exp, loss, amount, value, net
  and total, case ignored (exp is a stem: it matches Expenditure, and Expected too), when
  there are any; otherwise the first numeric column alone; otherwise, and for the empty
  table, the empty list.
\<close>

theorem detectValueColumns_spec:
  "vocabulary = [''exp'', ''loss'', ''amount'', ''value'', ''net'', ''total''] \<and>
   detectValueColumns ([] :: 'n Row list) = [] \<and>
   ((table :: 'n Row list) \<noteq> [] \<longrightarrow>
      detectValueColumns table =
        (let numeric = filter (numeric_column table) (Object_keys (hd table));
             preferred = filter matches_vocabulary numeric
         in if preferred \<noteq> [] then preferred
            else if numeric \<noteq> [] then [hd numeric]
            else []))"
proof -
  have t: "test_vocabulary = matches_vocabulary"
    by (rule ext) (rule test_vocabulary_iff)
  have n: "(\<lambda>c. list_ex (\<lambda>r. typeof_number (get r c)) table) = numeric_column table"
    by (rule ext) (rule isNumCol_iff)
  have k: "take 1 xs = (if xs \<noteq> [] then [hd xs] else [])" for xs :: "string list"
    by (cases xs) simp_all
  have "detectValueColumns table =
      (let numeric = filter (\<lambda>c. list_ex (\<lambda>r. typeof_number (get r c)) table) (Object_keys (hd table));
           priority = filter test_vocabulary numeric
       in if priority \<noteq> [] then priority else take 1 numeric)" if "table \<noteq> []"
  proof (cases table)
    case Nil
    with that show ?thesis by simp
  next
    case (Cons r0 rs)
    show ?thesis
      unfolding Cons by (simp only: detectValueColumns_def list.case list.sel Let_def)
  qed
  then show ?thesis
    unfolding t n k by (simp add: detectValueColumns_def vocabulary_def)
qed

lemma venues_numeric:
  "filter (numeric_column venues_table) (Object_keys (hd venues_table))
     = [''Venues'', ''Net Expenditure'', ''Population'', ''TOTAL LOSSES'']"
proof -
  have n: "numeric_column venues_table = (\<lambda>c. list_ex (\<lambda>r. typeof_number (get r c)) venues_table)"
    by (rule ext) (simp add: isNumCol_iff)
  show ?thesis unfolding n by code_simp
qed

lemma venues_preferred:
  "filter matches_vocabulary [''Venues'', ''Net Expenditure'', ''Population'', ''TOTAL LOSSES'']
     = [''Net Expenditure'', ''TOTAL LOSSES'']"
proof -
  have t: "matches_vocabulary = test_vocabulary"
    by (rule ext) (simp add: test_vocabulary_iff)
  show ?thesis unfolding t by code_simp
qed

theorem detectValueColumns_spec_witness:
  "venues_table \<noteq> [] \<and>
   detectValueColumns venues_table = [''Net Expenditure'', ''TOTAL LOSSES'']"
proof -
  have "venues_table \<noteq> []" by (simp add: venues_table_def)
  with detectValueColumns_spec[of venues_table] show ?thesis
    unfolding Let_def venues_numeric venues_preferred by simp
qed

lemma matches_worded_iff:
  "matches_worded_vocabulary c \<longleftrightarrow>
     list_ex (\<lambda>w. str_includes (toUpperCase c) (toUpperCase w)) worded_vocabulary"
  by (simp add: matches_worded_vocabulary_def list_ex_iff str_includes_iff)

text \<open>The claim C9 as it was stated fails in two ways. With the numeric columns Pop and
  Expected, no header contains one of the words expenditure, loss, amount, value, net and
  total, so the claim gives the first numeric column, Pop; the code returns Expected. And
  a numeric column Total that only the second row has is not returned.\<close>

theorem detectValueColumns_spec_counterexample:
  "filter (numeric_column expected_table) (Object_keys (hd expected_table)) = [''Pop'', ''Expected''] \<and>
   filter matches_worded_vocabulary [''Pop'', ''Expected''] = [] \<and>
   detectValueColumns expected_table = [''Expected''] \<and>
   numeric_column sparse_table ''Total'' \<and>
   matches_worded_vocabulary ''Total'' \<and>
   detectValueColumns sparse_table = []"
proof -
  have n: "numeric_column expected_table = (\<lambda>c. list_ex (\<lambda>r. typeof_number (get r c)) expected_table)"
    by (rule ext) (simp add: isNumCol_iff)
  have 1: "filter (numeric_column expected_table) (Object_keys (hd expected_table)) = [''Pop'', ''Expected'']"
    unfolding n by code_simp
  have w: "matches_worded_vocabulary
      = (\<lambda>c. list_ex (\<lambda>w. str_includes (toUpperCase c) (toUpperCase w)) worded_vocabulary)"
    by (rule ext) (rule matches_worded_iff)
  have 2: "filter matches_worded_vocabulary [''Pop'', ''Expected''] = []"
    unfolding w by code_simp
  have 3: "detectValueColumns expected_table = [''Expected'']" by code_simp
  have "list_ex (\<lambda>r. typeof_number (get r ''Total'')) sparse_table" by code_simp
  then have 4: "numeric_column sparse_table ''Total''" by (simp add: isNumCol_iff)
  have "list_ex (\<lambda>w. str_includes (toUpperCase ''Total'') (toUpperCase w)) worded_vocabulary" by code_simp
  then have 5: "matches_worded_vocabulary ''Total''" by (simp add: matches_worded_iff)
  have 6: "detectValueColumns sparse_table = []" by code_simp
  from 1 2 3 4 5 6 show ?thesis by blast
qed

section \<open>Properties of the geo merger\<close>

lemma firstNameField_find:
  "firstNameField rt props nfs =
     map_option (\<lambda>nf. normalizeName rt (getProp props nf)) (find (\<lambda>nf. toBoolean rt (getProp props nf)) nfs)"
  by (induction nfs) simp_all

lemma find_append_case:
  "find P (xs @ ys) = (case find P xs of None \<Rightarrow> find P ys | Some x \<Rightarrow> Some x)"
  by (induction xs) simp_all

lemma find_snoc_member:
  assumes "y \<in> set xs"
  shows "find P (xs @ [y]) = find P xs"
proof (cases "find P xs")
  case None
  with assms have "\<not> P y" by (auto simp: find_None_iff)
  with None show ?thesis by (simp add: find_append_case)
next
  case (Some x)
  then show ?thesis by (simp add: find_append_case)
qed

lemma found_name_eq:
  "found_name rt props = map_option (getProp props) (find (\<lambda>nf. toBoolean rt (getProp props nf)) nameFields)"
proof -
  have "''name'' \<in> set nameFields" by (simp add: nameFields_def)
  then show ?thesis by (simp add: found_name_def find_snoc_member)
qed

lemma find_None_name:
  assumes "find (\<lambda>nf. toBoolean rt (getProp props nf)) nameFields = None"
  shows "\<not> toBoolean rt (getProp props ''name'')"
proof -
  have "''name'' \<in> set nameFields" by (simp add: nameFields_def)
  with assms show ?thesis by (auto simp: find_None_iff)
qed

lemma mergeFeature_resolved:
  "mergeFeature rt lookup f =
     (case resolved_key rt (props_of f) of
        None \<Rightarrow> (f \<lparr> properties := Some (props_of f) \<rparr>, False)
      | Some k \<Rightarrow>
          (case lookup k of
             None \<Rightarrow> (f \<lparr> properties := Some (props_of f) \<rparr>, False)
           | Some hit \<Rightarrow> (f \<lparr> properties := Some (Object_assign (props_of f) (metrics hit)) \<rparr>, True)))"
proof (cases "find (\<lambda>nf. toBoolean rt (getProp (props_of f) nf)) nameFields")
  case None
  then show ?thesis
    using find_None_name[OF None]
    by (simp add: mergeFeature_def resolved_key_def found_name_eq firstNameField_find props_of_def[symmetric])
next
  case (Some nf)
  then show ?thesis
    by (simp add: mergeFeature_def resolved_key_def found_name_eq firstNameField_find props_of_def[symmetric] Let_def
        split: option.splits)
qed

lemma lookup_of_snoc: "lookup_of (agg @ [a]) = (lookup_of agg)(key a \<mapsto> a)"
  by (simp add: lookup_of_def)

lemma lookup_of_bucket: "lookup_of agg k = bucket_of agg k"
  by (induction agg rule: rev_induct) (simp_all add: lookup_of_snoc bucket_of_def, simp add: lookup_of_def)

lemma mergeFeature_matched:
  "mergeFeature rt (lookup_of agg) f =
     (case matched_bucket rt agg f of
        None \<Rightarrow> (f \<lparr> properties := Some (props_of f) \<rparr>, False)
      | Some hit \<Rightarrow> (f \<lparr> properties := Some (Object_assign (props_of f) (metrics hit)) \<rparr>, True))"
  by (simp add: mergeFeature_resolved matched_bucket_def lookup_of_bucket split: option.splits)

lemma mergeLoop_map:
  "mergeLoop rt lookup fs n =
     (map (\<lambda>f. fst (mergeFeature rt lookup f)) fs,
      n + length (filter (\<lambda>f. snd (mergeFeature rt lookup f)) fs))"
  by (induction fs arbitrary: n) (auto simp: split_beta Let_def)

lemma merge_features:
  "features (mergeMetricsIntoGeoJSON rt geo agg) = map (\<lambda>f. fst (mergeFeature rt (lookup_of agg) f)) (features geo)"
  by (simp add: mergeMetricsIntoGeoJSON_def mergeLoop_map Let_def)

lemma merge_summary:
  "collection_properties (mergeMetricsIntoGeoJSON rt geo agg) =
     Some \<lparr> attached_count = length (filter (\<lambda>f. snd (mergeFeature rt (lookup_of agg) f)) (features geo)),
            total_features = length (features geo) \<rparr>"
  by (simp add: mergeMetricsIntoGeoJSON_def mergeLoop_map Let_def)

lemma snd_mergeFeature: "snd (mergeFeature rt (lookup_of agg) f) \<longleftrightarrow> matched_bucket rt agg f \<noteq> None"
  by (simp add: mergeFeature_matched split: option.splits)

lemma properties_mergeFeature:
  "properties (fst (mergeFeature rt (lookup_of agg) f)) =
     Some (case matched_bucket rt agg f of
             None \<Rightarrow> props_of f
           | Some hit \<Rightarrow> Object_assign (props_of f) (metrics hit))"
  by (simp add: mergeFeature_matched split: option.splits)

lemma Object_assign_copied: "ms k = Some v \<Longrightarrow> Object_assign props ms k = Some (JNum v)"
  by (simp add: Object_assign_def map_add_def)

lemma Object_assign_other: "ms k = None \<Longrightarrow> Object_assign props ms k = props k"
  by (simp add: Object_assign_def map_add_def)

text \<open>
  Claim C2, as amended. The found name of a feature is the first present, non-empty
  (truthy) value among the candidate properties. The key of the feature is the
  normalization of the found name when that is not empty; when it is empty, the key is the
  normalization of the \<^verbatim>\<open>name\<close> property, provided that property is present and its
  normalization is not empty; otherwise the feature has no key. When the feature has a key
  and the aggregated list has a bucket with that key, every metric of the bucket is copied
  into the properties of the feature, replacing a property of the same name, and every
  other property stays as it was. A feature without a key, or whose key has no bucket,
  keeps its properties (an absent properties object becoming an empty one). The
  collection keeps its length, and nothing raises an error: the model is a total function.
\<close>

theorem mergeMetricsIntoGeoJSON_features:
  "length (features (mergeMetricsIntoGeoJSON rt geo agg)) = length (features geo) \<and>
   (\<forall>i < length (features geo).
      case matched_bucket rt agg (features geo ! i) of
        None \<Rightarrow>
          properties (features (mergeMetricsIntoGeoJSON rt geo agg) ! i) = Some (props_of (features geo ! i))
      | Some hit \<Rightarrow>
          (\<exists>p. properties (features (mergeMetricsIntoGeoJSON rt geo agg) ! i) = Some p \<and>
               (\<forall>k v. metrics hit k = Some v \<longrightarrow> p k = Some (JNum v)) \<and>
               (\<forall>k. metrics hit k = None \<longrightarrow> p k = props_of (features geo ! i) k)))"
proof (intro conjI allI impI)
  show "length (features (mergeMetricsIntoGeoJSON rt geo agg)) = length (features geo)"
    by (simp add: merge_features)
next
  fix i assume i: "i < length (features geo)"
  then have p: "properties (features (mergeMetricsIntoGeoJSON rt geo agg) ! i) =
     Some (case matched_bucket rt agg (features geo ! i) of
             None \<Rightarrow> props_of (features geo ! i)
           | Some hit \<Rightarrow> Object_assign (props_of (features geo ! i)) (metrics hit))"
    by (simp add: merge_features properties_mergeFeature)
  show "case matched_bucket rt agg (features geo ! i) of
        None \<Rightarrow>
          properties (features (mergeMetricsIntoGeoJSON rt geo agg) ! i) = Some (props_of (features geo ! i))
      | Some hit \<Rightarrow>
          (\<exists>p. properties (features (mergeMetricsIntoGeoJSON rt geo agg) ! i) = Some p \<and>
               (\<forall>k v. metrics hit k = Some v \<longrightarrow> p k = Some (JNum v)) \<and>
               (\<forall>k. metrics hit k = None \<longrightarrow> p k = props_of (features geo ! i) k))"
    unfolding p by (auto split: option.splits simp: Object_assign_copied Object_assign_other)
qed

text \<open>
  Claim C3, as amended. After the merge the collection carries a summary in which
  \<^verbatim>\<open>_attached_count\<close> is the number of features that were matched with a bucket, whether
  that bucket holds a metric or not, and \<^verbatim>\<open>_total_features\<close> is the number of features.
  So a feature whose key has no bucket, or that has no key, is counted in
  \<^verbatim>\<open>_total_features\<close> and not in \<^verbatim>\<open>_attached_count\<close>.
\<close>

theorem mergeMetricsIntoGeoJSON_summary:
  "collection_properties (mergeMetricsIntoGeoJSON rt geo agg) =
     Some \<lparr> attached_count = length (filter (\<lambda>f. matched_bucket rt agg f \<noteq> None) (features geo)),
            total_features = length (features (mergeMetricsIntoGeoJSON rt geo agg)) \<rparr> \<and>
   length (features (mergeMetricsIntoGeoJSON rt geo agg)) = length (features geo)"
proof
  have n: "length (features (mergeMetricsIntoGeoJSON rt geo agg)) = length (features geo)"
    by (simp add: merge_features)
  then show "length (features (mergeMetricsIntoGeoJSON rt geo agg)) = length (features geo)" .
  have "filter (\<lambda>f. snd (mergeFeature rt (lookup_of agg) f)) (features geo)
      = filter (\<lambda>f. matched_bucket rt agg f \<noteq> None) (features geo)"
    by (simp add: snd_mergeFeature)
  with n show "collection_properties (mergeMetricsIntoGeoJSON rt geo agg) =
     Some \<lparr> attached_count = length (filter (\<lambda>f. matched_bucket rt agg f \<noteq> None) (features geo)),
            total_features = length (features (mergeMetricsIntoGeoJSON rt geo agg)) \<rparr>"
    by (simp add: merge_summary)
qed

subsection \<open>The claims at the example inputs\<close>

lemma example_matches:
  "map (\<lambda>f. map_option key
              (matched_bucket int_runtime (aggregateByLgaWithMapping int_runtime [spend_file, losses_file]) f))
     [yarra_feature, hume_feature, bare_feature] = [Some ''YARRA'', None, None]"
  by code_simp

lemma example_yarra_bucket:
  "map_option (\<lambda>hit. map (metrics hit) [''LGA_NAME'', ''AREA'', ''metric_1''])
     (matched_bucket int_runtime (aggregateByLgaWithMapping int_runtime [spend_file, losses_file]) yarra_feature)
     = Some [None, None, Some (Fin 2)]"
  by code_simp

lemma yarra_props:
  "map (props_of yarra_feature) [''LGA_NAME'', ''AREA'', ''metric_1'']
     = [Some (JStr ''Yarra''), Some (JNum (Fin 19)), Some (JStr ''old'')]"
  by code_simp

theorem mergeMetricsIntoGeoJSON_features_witness:
  "length (features (mergeMetricsIntoGeoJSON int_runtime example_geo
      (aggregateByLgaWithMapping int_runtime [spend_file, losses_file]))) = 3 \<and>
   map_option (\<lambda>p. map p [''LGA_NAME'', ''AREA'', ''metric_1''])
     (properties (features (mergeMetricsIntoGeoJSON int_runtime example_geo
        (aggregateByLgaWithMapping int_runtime [spend_file, losses_file])) ! 0))
     = Some [Some (JStr ''Yarra''), Some (JNum (Fin 19)), Some (JNum (Fin 2))] \<and>
   properties (features (mergeMetricsIntoGeoJSON int_runtime example_geo
        (aggregateByLgaWithMapping int_runtime [spend_file, losses_file])) ! 1)
     = Some (props_of hume_feature)"
proof -
  let ?agg = "aggregateByLgaWithMapping int_runtime [spend_file, losses_file]"
  let ?m = "mergeMetricsIntoGeoJSON int_runtime example_geo ?agg"
  note t = mergeMetricsIntoGeoJSON_features[of int_runtime example_geo ?agg]
  have fs: "features example_geo = [yarra_feature, hume_feature, bare_feature]"
    by (simp add: example_geo_def)
  from t fs have len: "length (features ?m) = 3" by simp
  from example_yarra_bucket obtain hit where
    hit: "matched_bucket int_runtime ?agg yarra_feature = Some hit"
    and ms: "metrics hit ''LGA_NAME'' = None" "metrics hit ''AREA'' = None" "metrics hit ''metric_1'' = Some (Fin 2)"
    by auto
  from t fs hit obtain p where
    p: "properties (features ?m ! 0) = Some p"
    and copied: "\<forall>k v. metrics hit k = Some v \<longrightarrow> p k = Some (JNum v)"
    and kept: "\<forall>k. metrics hit k = None \<longrightarrow> p k = props_of yarra_feature k"
    by (auto dest!: spec[of _ 0])
  from copied kept ms yarra_props have
    "map p [''LGA_NAME'', ''AREA'', ''metric_1''] = [Some (JStr ''Yarra''), Some (JNum (Fin 19)), Some (JNum (Fin 2))]"
    by simp
  with p have y: "map_option (\<lambda>p. map p [''LGA_NAME'', ''AREA'', ''metric_1'']) (properties (features ?m ! 0))
     = Some [Some (JStr ''Yarra''), Some (JNum (Fin 19)), Some (JNum (Fin 2))]"
    by simp
  from example_matches have "matched_bucket int_runtime ?agg hume_feature = None" by simp
  with t fs have h: "properties (features ?m ! 1) = Some (props_of hume_feature)"
    by (auto dest!: spec[of _ 1])
  from len y h show ?thesis by simp
qed

theorem mergeMetricsIntoGeoJSON_summary_witness:
  "collection_properties (mergeMetricsIntoGeoJSON int_runtime example_geo
      (aggregateByLgaWithMapping int_runtime [spend_file, losses_file]))
     = Some \<lparr> attached_count = 1, total_features = 3 \<rparr>"
proof -
  let ?agg = "aggregateByLgaWithMapping int_runtime [spend_file, losses_file]"
  have fs: "features example_geo = [yarra_feature, hume_feature, bare_feature]"
    by (simp add: example_geo_def)
  from example_matches have
    "matched_bucket int_runtime ?agg yarra_feature \<noteq> None"
    "matched_bucket int_runtime ?agg hume_feature = None"
    "matched_bucket int_runtime ?agg bare_feature = None"
    by auto
  with mergeMetricsIntoGeoJSON_summary[of int_runtime example_geo ?agg] fs show ?thesis
    by simp
qed

text \<open>
  The claim C2 as it was stated fails where the found name normalizes to the empty key: a
  file with the region cell \<^verbatim>\<open>"-"\<close> gives a bucket with the empty key and a metric, a
  feature named \<^verbatim>\<open>"-"\<close> has that normalized name, and the merge copies nothing.
\<close>

theorem mergeMetricsIntoGeoJSON_features_counterexample:
  "found_name int_runtime (props_of dash_feature) = Some (JStr ''-'') \<and>
   normalizeName int_runtime (JStr ''-'') = [] \<and>
   map_option (\<lambda>hit. metrics hit ''metric_1'')
     (bucket_of (aggregateByLgaWithMapping int_runtime [dash_file]) []) = Some (Some (Fin 5)) \<and>
   map (\<lambda>f. props_of f ''metric_1'')
     (features (mergeMetricsIntoGeoJSON int_runtime dash_geo (aggregateByLgaWithMapping int_runtime [dash_file])))
     = [None]"
  by code_simp

text \<open>
  The claim C3 as it was stated fails where a matched bucket holds no metric: a file whose
  only value cell for Yarra is \<^verbatim>\<open>"N/A"\<close> gives a bucket without metrics, the feature Yarra
  is counted as attached, and no feature receives a metric.
\<close>

lemma na_agg:
  "aggregateByLgaWithMapping int_runtime [na_file]
     = [\<lparr> name = ''Yarra'', metrics = Map.empty, key = ''YARRA'' \<rparr>]"
proof -
  have n: "normalizeName int_runtime (JStr ''Yarra'') = ''YARRA''" by code_simp
  have t: "trim ''Yarra'' = ''Yarra''" by code_simp
  have f: "\<not> num_isFinite int_runtime (num_of_string int_runtime ''N/A'')" by code_simp
  show ?thesis
    by (simp add: aggregateByLgaWithMapping_def aggregateMapping_def na_file_def addRow_def
        mappingRowName_def get_def n t f entries_def Let_def)
qed

theorem mergeMetricsIntoGeoJSON_summary_counterexample:
  "map_option attached_count
     (collection_properties
        (mergeMetricsIntoGeoJSON int_runtime yarra_geo (aggregateByLgaWithMapping int_runtime [na_file])))
     = Some 1 \<and>
   length (filter (receives_metric int_runtime (aggregateByLgaWithMapping int_runtime [na_file]))
             (features yarra_geo)) = 0"
proof -
  have a: "map_option attached_count
     (collection_properties
        (mergeMetricsIntoGeoJSON int_runtime yarra_geo (aggregateByLgaWithMapping int_runtime [na_file])))
     = Some 1" by code_simp
  have "\<not> receives_metric int_runtime
           [\<lparr> name = ''Yarra'', metrics = Map.empty, key = ''YARRA'' \<rparr>] yarra_feature"
    by (simp add: receives_metric_def matched_bucket_def bucket_of_def split: option.splits)
  then show ?thesis using a by (simp add: na_agg yarra_geo_def)
qed

end
